theory Spec2Isabelle
  imports
    Main
    "HOL-Library.Char_ord"
    "HOL-Library.List_Lexorder"
    "HOL-Library.Multiset"
    "HOL-Library.Product_Lexorder"
    "HOL-Library.Sublist"
begin

section \<open>Values shared by the protocol handler\<close>

text \<open>
  A naive \<open>datetime.datetime\<close> is compared field by field, most significant first; the
  tuple (year, month, day, hour, minute, second) with the lexicographic order of
  \<open>Product_Lexorder\<close> is that order. \<open>datetime.time(23, 59, 59)\<close> is a
  \<open>time_of_day\<close>.
\<close>

type_synonym datetime = "nat \<times> nat \<times> nat \<times> nat \<times> nat \<times> nat"

type_synonym time_of_day = "nat \<times> nat \<times> nat"

text \<open>The second component of what \<open>parse_date\<close> returns: day or second granularity.\<close>

datatype granularity = Day | Second

text \<open>
  What \<open>json.loads\<close> can return. Numbers carry no payload here: the token code rejects
  every value that is neither \<open>None\<close> nor a \<open>str\<close> in one branch.
\<close>

datatype json =
    JNull
  | JBool bool
  | JNum
  | JStr string
  | JArr "json list"
  | JObj "(string \<times> json) list"

text \<open>
  The exceptions of \<open>exception.py\<close> and the Python exceptions the modelled code can
  raise. The string of a constructor is the \<open>_message\<close> attribute set by
  \<open>__init__\<close>. \<open>NotModelled\<close> marks a replacement field of \<open>str.format\<close>
  outside the positional forms modelled below.
\<close>

datatype error =
    BadArgument string
  | InvalidResumptionToken
  | ExpiredResumptionToken
  | InvalidVerb
  | RepeatedVerb
  | MissingVerb
  | UnsupportedMetadataFormat string
  | UnavailableMetadataFormat string
  | IdDoesNotExist string
  | NoRecordsMatch
  | NoMetadataFormats string
  | NoSetHierarchy
  | KeyError string
  | ValueError string
  | IndexError string
  | NotModelled

text \<open>\<open>isinstance(e, OaiException)\<close>: what \<open>except exception.OaiException\<close> catches.\<close>

fun is_OaiException :: "error \<Rightarrow> bool" where
  "is_OaiException (KeyError _) = False"
| "is_OaiException (ValueError _) = False"
| "is_OaiException (IndexError _) = False"
| "is_OaiException NotModelled = False"
| "is_OaiException _ = True"

fun code :: "error \<Rightarrow> string" where
  "code (BadArgument _) = ''badArgument''"
| "code InvalidResumptionToken = ''badResumptionToken''"
| "code ExpiredResumptionToken = ''badResumptionToken''"
| "code InvalidVerb = ''badVerb''"
| "code RepeatedVerb = ''badVerb''"
| "code MissingVerb = ''badVerb''"
| "code (UnsupportedMetadataFormat _) = ''cannotDisseminateFormat''"
| "code (UnavailableMetadataFormat _) = ''cannotDisseminateFormat''"
| "code (IdDoesNotExist _) = ''idDoesNotExist''"
| "code NoRecordsMatch = ''noRecordsMatch''"
| "code (NoMetadataFormats _) = ''noMetadataFormats''"
| "code NoSetHierarchy = ''noSetHierarchy''"
| "code _ = []"

fun message :: "error \<Rightarrow> string" where
  "message (BadArgument m) = m"
| "message InvalidResumptionToken = ''Invalid resumption token''"
| "message ExpiredResumptionToken = ''Resumption token has expired.''"
| "message InvalidVerb = ''Invalid verb''"
| "message RepeatedVerb = ''Repeated verb''"
| "message MissingVerb = ''Missing verb''"
| "message (UnsupportedMetadataFormat m) = m"
| "message (UnavailableMetadataFormat m) = m"
| "message (IdDoesNotExist m) = m"
| "message NoRecordsMatch = ''No matching records found.''"
| "message (NoMetadataFormats m) = m"
| "message NoSetHierarchy = ''This repository does not support sets.''"
| "message (KeyError m) = m"
| "message (ValueError m) = m"
| "message (IndexError m) = m"
| "message NotModelled = []"

section \<open>Python's \<open>str.format\<close> with positional fields\<close>

text \<open>
  \<open>template.format(*args)\<close> for the templates of \<open>exception.py\<close>: literal text is
  copied, \<open>{{\<close> and \<open>}}\<close> are the escaped braces, \<open>{}\<close> takes the next argument and
  \<open>{N}\<close> the argument of index \<open>N\<close>. A brace without its partner raises
  \<open>ValueError\<close>, an index past the arguments \<open>IndexError\<close>, and mixing the two
  numberings \<open>ValueError\<close>. Field names, conversions and format specifications are
  not modelled.
\<close>

datatype numbering = Unset | Automatic nat | Manual

datatype scan = Text | Field string

fun digit_value :: "char \<Rightarrow> nat option" where
  "digit_value c =
     (if CHR ''0'' \<le> c \<and> c \<le> CHR ''9''
      then Some (of_char c - of_char (CHR ''0''))
      else None)"

fun index_of_digits :: "nat \<Rightarrow> string \<Rightarrow> nat option" where
  "index_of_digits acc [] = Some acc"
| "index_of_digits acc (c # cs) =
     (case digit_value c of
        None \<Rightarrow> None
      | Some d \<Rightarrow> index_of_digits (10 * acc + d) cs)"

fun get_arg :: "string list \<Rightarrow> nat \<Rightarrow> error + string" where
  "get_arg args n =
     (if n < length args then Inr (args ! n)
      else Inl (IndexError ''Replacement index out of range''))"

fun resolve_field :: "numbering \<Rightarrow> string list \<Rightarrow> string \<Rightarrow> error + (string \<times> numbering)" where
  "resolve_field st args [] =
     (case st of
        Manual \<Rightarrow> Inl (ValueError ''cannot switch from manual to automatic numbering'')
      | Unset \<Rightarrow> (case get_arg args 0 of Inl e \<Rightarrow> Inl e | Inr v \<Rightarrow> Inr (v, Automatic 1))
      | Automatic n \<Rightarrow>
          (case get_arg args n of Inl e \<Rightarrow> Inl e | Inr v \<Rightarrow> Inr (v, Automatic (Suc n))))"
| "resolve_field st args (c # cs) =
     (case index_of_digits 0 (c # cs) of
        None \<Rightarrow> Inl NotModelled
      | Some n \<Rightarrow>
          (case st of
             Automatic _ \<Rightarrow>
               Inl (ValueError ''cannot switch from automatic to manual numbering'')
           | _ \<Rightarrow> (case get_arg args n of Inl e \<Rightarrow> Inl e | Inr v \<Rightarrow> Inr (v, Manual))))"

text \<open>
  The scanner is outside a replacement field (\<open>Text\<close>) or inside one, holding the
  characters of the field read so far, last first (\<open>Field\<close>).
\<close>

fun py_format_from :: "numbering \<Rightarrow> string list \<Rightarrow> scan \<Rightarrow> string \<Rightarrow> error + string" where
  "py_format_from st args Text [] = Inr []"
| "py_format_from st args (Field f) [] =
     Inl (ValueError ''expected } before end of string'')"
| "py_format_from st args (Field f) (c # cs) =
     (if c = CHR ''}'' then
        (case resolve_field st args (rev f) of
           Inl e \<Rightarrow> Inl e
         | Inr (v, st') \<Rightarrow>
             (case py_format_from st' args Text cs of
                Inl e \<Rightarrow> Inl e
              | Inr out \<Rightarrow> Inr (v @ out)))
      else py_format_from st args (Field (c # f)) cs)"
| "py_format_from st args Text (c # cs) =
     (if c = CHR ''{'' then
        (case cs of
           [] \<Rightarrow> Inl (ValueError ''Single { encountered in format string'')
         | d # ds \<Rightarrow>
             if d = CHR ''{'' then
               (case py_format_from st args Text ds of
                  Inl e \<Rightarrow> Inl e
                | Inr out \<Rightarrow> Inr (CHR ''{'' # out))
             else py_format_from st args (Field []) cs)
      else if c = CHR ''}'' then
        (case cs of
           [] \<Rightarrow> Inl (ValueError ''Single } encountered in format string'')
         | d # ds \<Rightarrow>
             if d = CHR ''}'' then
               (case py_format_from st args Text ds of
                  Inl e \<Rightarrow> Inl e
                | Inr out \<Rightarrow> Inr (CHR ''}'' # out))
             else Inl (ValueError ''Single } encountered in format string''))
      else
        (case py_format_from st args Text cs of
           Inl e \<Rightarrow> Inl e
         | Inr out \<Rightarrow> Inr (c # out)))"

definition py_format :: "string \<Rightarrow> string list \<Rightarrow> error + string" where
  "py_format template args = py_format_from Unset args Text template"

section \<open>The environment of the handlers\<close>

text \<open>
  \<open>views.py\<close> imports \<open>datestamp_now\<close>, \<open>format_datestamp\<close>, \<open>parse_date\<close> and
  \<open>contains_illegal_chars\<close> from \<open>util\<close>, \<open>exception.py\<close> imports
  \<open>filter_illegal_chars\<close> from it, and the handlers query the classes of \<open>models\<close>
  and call \<open>json\<close>. None of these modules is among the sources, so each function is
  a field of the environment the handlers run in: a raising \<open>parse_date\<close> or
  \<open>json.loads\<close> is \<open>None\<close>.
\<close>

record oai_record =
  record_identifier :: string
  record_prefix :: string
  record_datestamp :: datetime

record oai_set =
  set_spec :: string
  set_name :: string

record record_query =
  q_identifier :: "string option"
  q_metadata_prefix :: "string option"
  q_from_date :: "datetime option"
  q_until_date :: "datetime option"
  q_set :: "string option"
  q_ignore_deleted :: bool
  q_offset :: "string option"
  q_limit :: "int option"

record env =
  contains_illegal_chars :: "string \<Rightarrow> bool"
  filter_illegal_chars :: "string \<Rightarrow> string"
  parse_date :: "string \<Rightarrow> time_of_day option \<Rightarrow> (datetime \<times> granularity) option"
  format_datestamp :: "datetime \<Rightarrow> string"
  json_loads :: "string \<Rightarrow> json option"
  json_dumps :: "json \<Rightarrow> string"
  Datestamp_get :: "datetime option"
  Set_list :: "oai_set list"
  Format_exists :: "string option \<Rightarrow> bool \<Rightarrow> bool"
  Record_list :: "record_query \<Rightarrow> oai_record list"
  item_list_limit :: int
  deleted_records :: string

section \<open>Exception constructors (\<open>exception.py\<close>)\<close>

definition BadArgument_init :: "env \<Rightarrow> string \<Rightarrow> error" where
  "BadArgument_init e m = BadArgument (filter_illegal_chars e m)"

text \<open>\<open>str(x)\<close> of a value that is a string or \<open>None\<close>.\<close>

fun py_str :: "string option \<Rightarrow> string" where
  "py_str None = ''None''"
| "py_str (Some s) = s"

definition UnsupportedMetadataFormat_init :: "env \<Rightarrow> string option \<Rightarrow> error" where
  "UnsupportedMetadataFormat_init e p =
     (case py_format
             (''Metadata format '' @ [CHR 0x22] @ ''{0}'' @ [CHR 0x22]
              @ '' is not supported by this repository.'')
             [py_str p] of
        Inl err \<Rightarrow> err
      | Inr m \<Rightarrow> UnsupportedMetadataFormat (filter_illegal_chars e m))"

definition NoMetadataFormats_template :: string where
  "NoMetadataFormats_template =
     ''No metadata formats available for item '' @ [CHR 0x22] @ ''%s'' @ [CHR 0x22] @ ''.''"

definition NoMetadataFormats_init :: "env \<Rightarrow> string \<Rightarrow> error" where
  "NoMetadataFormats_init e ident =
     (case py_format NoMetadataFormats_template [ident] of
        Inl err \<Rightarrow> err
      | Inr m \<Rightarrow> NoMetadataFormats (filter_illegal_chars e m))"

section \<open>Request parameters\<close>

text \<open>
  \<open>_check_params\<close> takes "a dict or multidict": \<open>request.params\<close> is a multidict,
  an ordered sequence of (name, value) pairs where a name may occur several times and
  which has \<open>getall\<close>; a decoded resumption token is a plain \<open>dict\<close> from names to
  \<open>str\<close> or \<open>None\<close>, kept here in insertion order.
\<close>

datatype params =
    MultiDict "(string \<times> string) list"
  | Dict "(string \<times> string option) list"

text \<open>\<open>hasattr(params, 'getall')\<close>\<close>

fun has_getall :: "params \<Rightarrow> bool" where
  "has_getall (MultiDict _) = True"
| "has_getall (Dict _) = False"

text \<open>\<open>name in params\<close>\<close>

fun contains_key :: "params \<Rightarrow> string \<Rightarrow> bool" where
  "contains_key (MultiDict items) k = (k \<in> set (map fst items))"
| "contains_key (Dict items) k = (k \<in> set (map fst items))"

text \<open>\<open>params.getall(name)\<close>; a plain dict has no such method.\<close>

fun getall :: "params \<Rightarrow> string \<Rightarrow> string list" where
  "getall (MultiDict items) k = map snd (filter (\<lambda>kv. fst kv = k) items)"
| "getall (Dict items) k = []"

text \<open>\<open>for name in params\<close>: a multidict yields the name of every pair.\<close>

fun names_of :: "params \<Rightarrow> string list" where
  "names_of (MultiDict items) = map fst items"
| "names_of (Dict items) = map fst items"

text \<open>
  \<open>params.get(name)\<close>: \<open>None\<close> for a missing name and for a name bound to
  \<open>None\<close>. A multidict answers with the value of the last pair of that name; every
  read in \<open>views.py\<close> follows a check that the name is not repeated.
\<close>

fun get_param :: "params \<Rightarrow> string \<Rightarrow> string option" where
  "get_param (MultiDict items) k = map_of (rev items) k"
| "get_param (Dict items) k = (case map_of items k of None \<Rightarrow> None | Some v \<Rightarrow> v)"

text \<open>\<open>params[name]\<close>: \<open>KeyError\<close> for a missing name.\<close>

fun getitem :: "params \<Rightarrow> string \<Rightarrow> error + string option" where
  "getitem (MultiDict items) k =
     (case map_of (rev items) k of None \<Rightarrow> Inl (KeyError k) | Some v \<Rightarrow> Inr (Some v))"
| "getitem (Dict items) k =
     (case map_of items k of None \<Rightarrow> Inl (KeyError k) | Some v \<Rightarrow> Inr v)"

text \<open>\<open>request.params[name]\<close>, whose values are strings.\<close>

definition request_getitem :: "(string \<times> string) list \<Rightarrow> string \<Rightarrow> error + string" where
  "request_getitem items k =
     (case map_of (rev items) k of None \<Rightarrow> Inl (KeyError k) | Some v \<Rightarrow> Inr v)"

record request =
  req_params :: "(string \<times> string) list"
  req_time :: datetime

section \<open>\<open>_check_params\<close>\<close>

definition quoted :: "string \<Rightarrow> string" where
  "quoted s = [CHR 0x22] @ s @ [CHR 0x22]"

definition is_repeated :: "params \<Rightarrow> string \<Rightarrow> bool" where
  "is_repeated ps k = (has_getall ps \<and> length (getall ps k) > 1)"

definition is_expected :: "string list \<Rightarrow> string list \<Rightarrow> string \<Rightarrow> bool" where
  "is_expected required allowed k =
     (k = ''verb'' \<or> k \<in> set allowed \<or> k \<in> set required)"

text \<open>The loop \<open>for name in params\<close>, over the names still to visit.\<close>

fun check_names :: "env \<Rightarrow> params \<Rightarrow> string list \<Rightarrow> string list \<Rightarrow> string list \<Rightarrow> error + unit" where
  "check_names e ps required allowed [] = Inr ()"
| "check_names e ps required allowed (k # ks) =
     (if \<not> is_expected required allowed k
      then Inl (BadArgument_init e (''Illegal argument: '' @ quoted k))
      else if is_repeated ps k
      then Inl (BadArgument_init e (''Repeated argument: '' @ quoted k))
      else (case get_param ps k of
              None \<Rightarrow> check_names e ps required allowed ks
            | Some v \<Rightarrow>
                if contains_illegal_chars e v
                then Inl (BadArgument_init e (''Invalid argument: '' @ quoted k))
                else check_names e ps required allowed ks))"

text \<open>The loop \<open>for p in required\<close>.\<close>

fun check_required :: "env \<Rightarrow> params \<Rightarrow> string list \<Rightarrow> error + unit" where
  "check_required e ps [] = Inr ()"
| "check_required e ps (p # rest) =
     (if \<not> contains_key ps p
      then Inl (BadArgument_init e (''Missing argument: '' @ quoted p))
      else check_required e ps rest)"

definition check_params :: "env \<Rightarrow> params \<Rightarrow> string list \<Rightarrow> string list \<Rightarrow> error + unit" where
  "check_params e ps required allowed =
     (if \<not> contains_key ps ''verb'' then Inl MissingVerb
      else if has_getall ps \<and> length (getall ps ''verb'') > 1 then Inl RepeatedVerb
      else (case check_names e ps required allowed (names_of ps) of
              Inl err \<Rightarrow> Inl err
            | Inr _ \<Rightarrow> check_required e ps required))"

text \<open>
  The requirement of the parameter validator in the specification's words, beyond
  the two on \<open>verb\<close>: a name that is not \<open>verb\<close>, required or allowed; a name
  given more than once; a value with an illegal character; a required name that is
  absent.
\<close>

fun values_of :: "params \<Rightarrow> string list" where
  "values_of (MultiDict items) = map snd items"
| "values_of (Dict items) = concat (map (\<lambda>kv. case snd kv of None \<Rightarrow> [] | Some v \<Rightarrow> [v]) items)"

definition other_violation :: "env \<Rightarrow> params \<Rightarrow> string list \<Rightarrow> string list \<Rightarrow> bool" where
  "other_violation e ps required allowed =
     (list_ex (\<lambda>k. k \<noteq> ''verb'' \<and> k \<notin> set allowed \<and> k \<notin> set required) (names_of ps)
      \<or> list_ex (\<lambda>k. length (getall ps k) > 1) (names_of ps)
      \<or> list_ex (contains_illegal_chars e) (values_of ps)
      \<or> list_ex (\<lambda>p. \<not> contains_key ps p) required)"

section \<open>Resumption tokens\<close>

fun is_none_or_str :: "json \<Rightarrow> bool" where
  "is_none_or_str JNull = True"
| "is_none_or_str (JStr _) = True"
| "is_none_or_str _ = False"

fun str_or_none :: "json \<Rightarrow> string option" where
  "str_or_none (JStr s) = Some s"
| "str_or_none _ = None"

fun json_of :: "string option \<Rightarrow> json" where
  "json_of None = JNull"
| "json_of (Some s) = JStr s"

text \<open>
  \<open>_check_resumption_token_date\<close>. \<open>token['date']\<close> of a token without the key, and
  \<open>parse_date(None)\<close>, raise inside the \<open>try\<close> whose bare \<open>except\<close> turns
  every exception into \<open>InvalidResumptionToken\<close>.
\<close>

definition check_resumption_token_date :: "env \<Rightarrow> (string \<times> string option) list \<Rightarrow> error + unit" where
  "check_resumption_token_date e token =
     (case map_of token ''date'' of
        Some (Some d) \<Rightarrow>
          (case parse_date e d None of
             None \<Rightarrow> Inl InvalidResumptionToken
           | Some (date, _) \<Rightarrow>
               (case Datestamp_get e of
                  None \<Rightarrow> Inr ()
                | Some latest \<Rightarrow>
                    if latest \<ge> date then Inl ExpiredResumptionToken else Inr ()))
      | _ \<Rightarrow> Inl InvalidResumptionToken)"

text \<open>\<open>_get_resumption_token\<close>: \<open>Inr None\<close> is the returned \<open>None\<close>.\<close>

definition get_resumption_token :: "env \<Rightarrow> request \<Rightarrow> error + (string \<times> string option) list option" where
  "get_resumption_token e req =
     (if \<not> contains_key (MultiDict (req_params req)) ''resumptionToken'' then Inr None
      else
        (case check_params e (MultiDict (req_params req)) [''resumptionToken''] [] of
           Inl err \<Rightarrow> Inl err
         | Inr _ \<Rightarrow>
             (case request_getitem (req_params req) ''resumptionToken'' of
                Inl err \<Rightarrow> Inl err
              | Inr raw \<Rightarrow>
                  (case json_loads e raw of
                     Some (JObj parsed) \<Rightarrow>
                       if list_ex (\<lambda>kv. \<not> is_none_or_str (snd kv)) parsed
                       then Inl InvalidResumptionToken
                       else
                         (case request_getitem (req_params req) ''verb'' of
                            Inl err \<Rightarrow> Inl err
                          | Inr verb \<Rightarrow>
                              let token = map (\<lambda>kv. (fst kv, str_or_none (snd kv))) parsed in
                              if get_param (Dict token) ''verb'' \<noteq> Some verb
                              then Inl InvalidResumptionToken
                              else
                                (case check_resumption_token_date e token of
                                   Inl err \<Rightarrow> Inl err
                                 | Inr _ \<Rightarrow> Inr (Some token)))
                   | _ \<Rightarrow> Inl InvalidResumptionToken))))"

text \<open>\<open>_create_resumption_token\<close>\<close>

definition create_resumption_token :: "env \<Rightarrow> params \<Rightarrow> string \<Rightarrow> datetime \<Rightarrow> error + string" where
  "create_resumption_token e ps offset time =
     (case getitem ps ''verb'' of
        Inl err \<Rightarrow> Inl err
      | Inr verb \<Rightarrow>
          (case getitem ps ''metadataPrefix'' of
             Inl err \<Rightarrow> Inl err
           | Inr mp \<Rightarrow>
               Inr (json_dumps e (JObj
                 [(''verb'', json_of verb),
                  (''metadataPrefix'', json_of mp),
                  (''offset'', JStr offset),
                  (''date'', JStr (format_datestamp e time)),
                  (''from'', json_of (get_param ps ''from'')),
                  (''until'', json_of (get_param ps ''until'')),
                  (''set'', json_of (get_param ps ''set''))]))))"

section \<open>Fetching records\<close>

definition get_ignore_deleted :: "env \<Rightarrow> bool" where
  "get_ignore_deleted e = (deleted_records e = ''no'')"

text \<open>\<open>_get_metadata_prefix\<close>; the prefix of a replayed token may be \<open>None\<close>.\<close>

definition get_metadata_prefix :: "env \<Rightarrow> params \<Rightarrow> bool \<Rightarrow> error + string option" where
  "get_metadata_prefix e ps ignore_deleted =
     (case getitem ps ''metadataPrefix'' of
        Inl err \<Rightarrow> Inl err
      | Inr p \<Rightarrow>
          if \<not> Format_exists e p ignore_deleted
          then Inl (UnsupportedMetadataFormat_init e p)
          else Inr p)"

text \<open>
  \<open>_parse_from_and_until\<close>: \<open>from\<close> is parsed with no default time, \<open>until\<close> with
  \<open>datetime.time(23, 59, 59)\<close>; the result is the pair (from_date, until_date).
\<close>

definition parse_from_and_until :: "env \<Rightarrow> string option \<Rightarrow> string option \<Rightarrow> error + (datetime option \<times> datetime option)" where
  "parse_from_and_until e from_date_str until_date_str =
     (case (case from_date_str of
              None \<Rightarrow> Inr None
            | Some s \<Rightarrow>
                (case parse_date e s None of
                   None \<Rightarrow> Inl (BadArgument_init e (''Illegal '' @ quoted ''from'' @ '' datestamp''))
                 | Some r \<Rightarrow> Inr (Some r))) of
        Inl err \<Rightarrow> Inl err
      | Inr parsed_from \<Rightarrow>
          (case (case until_date_str of
                   None \<Rightarrow> Inr None
                 | Some s \<Rightarrow>
                     (case parse_date e s (Some (23, 59, 59)) of
                        None \<Rightarrow>
                          Inl (BadArgument_init e (''Illegal '' @ quoted ''until'' @ '' datestamp''))
                      | Some r \<Rightarrow> Inr (Some r))) of
             Inl err \<Rightarrow> Inl err
           | Inr parsed_until \<Rightarrow>
               (case (parsed_from, parsed_until) of
                  (Some (from_date, from_granularity), Some (until_date, until_granularity)) \<Rightarrow>
                    if from_granularity \<noteq> until_granularity
                    then Inl (BadArgument_init e
                           (''Datestamps '' @ quoted ''from'' @ '' and '' @ quoted ''until''
                            @ '' have different granularity''))
                    else if from_date > until_date
                    then Inl (BadArgument_init e
                           (''Datestamp '' @ quoted ''from'' @ '' is greater than ''
                            @ quoted ''until''))
                    else Inr (Some from_date, Some until_date)
                | _ \<Rightarrow> Inr (map_option fst parsed_from, map_option fst parsed_until))))"

text \<open>The keyword arguments \<open>_get_records\<close> passes to \<open>Record.list\<close>.\<close>

definition list_query :: "params \<Rightarrow> string option \<Rightarrow> datetime option \<Rightarrow> datetime option \<Rightarrow> bool \<Rightarrow> int \<Rightarrow> record_query" where
  "list_query ps p from_date until_date ignore_deleted limit =
     \<lparr> q_identifier = None,
       q_metadata_prefix = p,
       q_from_date = from_date,
       q_until_date = until_date,
       q_set = get_param ps ''set'',
       q_ignore_deleted = ignore_deleted,
       q_offset = get_param ps ''offset'',
       q_limit = Some (limit + 1) \<rparr>"

text \<open>\<open>_get_records\<close>: \<open>records[:-1]\<close> and \<open>records[-1]\<close> of a non-empty list.\<close>

definition get_records :: "env \<Rightarrow> params \<Rightarrow> bool \<Rightarrow> int \<Rightarrow> error + (oai_record list \<times> string option)" where
  "get_records e ps ignore_deleted limit =
     (case get_metadata_prefix e ps ignore_deleted of
        Inl err \<Rightarrow> Inl err
      | Inr p \<Rightarrow>
          (case parse_from_and_until e (get_param ps ''from'') (get_param ps ''until'') of
             Inl err \<Rightarrow> Inl err
           | Inr (from_date, until_date) \<Rightarrow>
               if get_param ps ''set'' \<noteq> None \<and> length (Set_list e) = 0
               then Inl NoSetHierarchy
               else
                 (let records = Record_list e
                        (list_query ps p from_date until_date ignore_deleted limit) in
                  if records = [] then Inl NoRecordsMatch
                  else if int (length records) = limit + 1
                  then Inr (butlast records, Some (record_identifier (last records)))
                  else Inr (records, None))))"

section \<open>The handlers\<close>

record list_result =
  records :: "oai_record list"
  token :: "string option"

text \<open>\<open>token_params or request.params\<close>: an empty dict is falsy.\<close>

fun effective_params :: "(string \<times> string option) list option \<Rightarrow> request \<Rightarrow> params" where
  "effective_params (Some (kv # kvs)) req = Dict (kv # kvs)"
| "effective_params _ req = MultiDict (req_params req)"

definition required_names :: "bool \<Rightarrow> string list" where
  "required_names has_token =
     (if has_token
      then [''metadataPrefix'', ''offset'', ''date'', ''from'', ''until'', ''set'']
      else [''metadataPrefix''])"

definition allowed_names :: "bool \<Rightarrow> string list" where
  "allowed_names has_token = (if has_token then [] else [''from'', ''until'', ''set''])"

text \<open>
  \<open>handle_list_items\<close>, the handler of ListIdentifiers and ListRecords. The call of
  \<open>_get_resumption_token\<close> stands before the \<open>try\<close>; the \<open>except\<close> clause catches
  what \<open>_check_params\<close> and \<open>_get_records\<close> raise.
\<close>

definition handle_list_items :: "env \<Rightarrow> request \<Rightarrow> error + list_result" where
  "handle_list_items e req =
     (let limit = item_list_limit e in
      case get_resumption_token e req of
        Inl err \<Rightarrow> Inl err
      | Inr token_params \<Rightarrow>
          (let has_token = (token_params \<noteq> None);
               ps = effective_params token_params req
           in case (case check_params e ps (required_names has_token) (allowed_names has_token) of
                      Inl err \<Rightarrow> Inl err
                    | Inr _ \<Rightarrow> get_records e ps (get_ignore_deleted e) limit) of
                Inl err \<Rightarrow>
                  if is_OaiException err \<and> has_token then Inl InvalidResumptionToken
                  else Inl err
              | Inr (recs, next_offset) \<Rightarrow>
                  (case next_offset of
                     Some offset \<Rightarrow>
                       (case create_resumption_token e ps offset (req_time req) of
                          Inl err \<Rightarrow> Inl err
                        | Inr new_token \<Rightarrow> Inr \<lparr> records = recs, token = Some new_token \<rparr>)
                   | None \<Rightarrow>
                       if token_params \<noteq> None
                       then Inr \<lparr> records = recs, token = Some [] \<rparr>
                       else Inr \<lparr> records = recs, token = None \<rparr>)))"

text \<open>
  \<open>handle_list_sets\<close>: only \<open>ExpiredResumptionToken\<close> is caught around the call of
  \<open>_get_resumption_token\<close>; a returned non-empty dict is truthy.
\<close>

definition handle_list_sets :: "env \<Rightarrow> request \<Rightarrow> error + oai_set list" where
  "handle_list_sets e req =
     (case (case get_resumption_token e req of
              Inl err \<Rightarrow>
                if err = ExpiredResumptionToken then Inl InvalidResumptionToken else Inl err
            | Inr token_params \<Rightarrow>
                (case token_params of
                   Some (kv # kvs) \<Rightarrow> Inl InvalidResumptionToken
                 | _ \<Rightarrow> Inr ())) of
        Inl err \<Rightarrow> Inl err
      | Inr _ \<Rightarrow>
          (case check_params e (MultiDict (req_params req)) [] [] of
             Inl err \<Rightarrow> Inl err
           | Inr _ \<Rightarrow>
               if length (Set_list e) = 0 then Inl NoSetHierarchy
               else Inr (Set_list e)))"

section \<open>The harvest engine\<close>

text \<open>
  \<open>importer/harvest.py\<close> is not among the sources; only its tests are. The two
  operations below are written from the specification, and what they do to the store
  is the sequence of calls they make on it, as the tests observe it through mocks.
\<close>

datatype call =
    Item_get string
  | Clear_sets string
  | Set_create_or_update string string
  | Add_to_set string string
  | Item_create_or_update string

datatype harvest_error = HarvestError string

text \<open>
  Modelled from the spec: \<open>update_sets(provider, identifier, dry_run)\<close> of
  \<open>importer/harvest.py\<close>, absent from the sources. It fetches
  \<open>provider.get_sets(identifier)\<close> (which may raise: \<open>Inl\<close>), looks the item up,
  clears its memberships, and for each (spec, name) pair, sorted by spec ascending,
  upserts the set and adds the item to it. A dry run skips the mutating calls.
\<close>

definition update_sets :: "(string \<Rightarrow> string + (string \<times> string) list) \<Rightarrow> string \<Rightarrow> bool \<Rightarrow> string + call list" where
  "update_sets get_sets ident dry_run =
     (case get_sets ident of
        Inl msg \<Rightarrow> Inl msg
      | Inr sets \<Rightarrow>
          Inr (Item_get ident #
               (if dry_run then []
                else Clear_sets ident #
                     concat (map (\<lambda>sn. [Set_create_or_update (fst sn) (snd sn),
                                         Add_to_set ident (fst sn)])
                                 (sort_key fst sets)))))"

text \<open>The \<open>Set.create_or_update\<close> calls of a trace, in order.\<close>

fun created :: "call list \<Rightarrow> (string \<times> string) list" where
  "created [] = []"
| "created (Set_create_or_update s n # cs) = (s, n) # created cs"
| "created (_ # cs) = created cs"

text \<open>
  A set \<open>a\<close> is an ancestor of the set \<open>b\<close> when the colon-delimited path \<open>b\<close>
  continues \<open>a\<close>: \<open>a\<close> and \<open>a:b\<close> are the ancestors of \<open>a:b:c\<close>.
\<close>

definition is_ancestor_spec :: "string \<Rightarrow> string \<Rightarrow> bool" where
  "is_ancestor_spec a b = (prefix (a @ '':'') b \<and> a @ '':'' \<noteq> b)"

text \<open>
  An element of \<open>provider.identifiers()\<close>: \<open>str\<close> of it returns an identifier or
  raises with a message.
\<close>

datatype provider_id = Converts string | Conversion_fails string

fun convert_all :: "provider_id list \<Rightarrow> harvest_error + string list" where
  "convert_all [] = Inr []"
| "convert_all (Conversion_fails msg # rest) = Inl (HarvestError msg)"
| "convert_all (Converts i # rest) =
     (case convert_all rest of Inl e \<Rightarrow> Inl e | Inr is \<Rightarrow> Inr (i # is))"

text \<open>
  Modelled from the spec: \<open>update_items(provider, purge, dry_run)\<close> of
  \<open>importer/harvest.py\<close>, absent from the sources. It fetches
  \<open>provider.identifiers()\<close>; a failing provider or conversion is a \<open>HarvestError\<close>
  with the underlying message. The identifiers are deduplicated (the order is left
  open by the specification) and each one is created or updated, unless the run is
  dry; the result is the set of identifiers. The trace holds the
  \<open>Item.create_or_update\<close> calls only.
\<close>

definition update_items :: "(string + provider_id list) \<Rightarrow> bool \<Rightarrow> bool \<Rightarrow> harvest_error + (call list \<times> string set)" where
  "update_items provider_identifiers purge dry_run =
     (case provider_identifiers of
        Inl msg \<Rightarrow> Inl (HarvestError msg)
      | Inr raw \<Rightarrow>
          (case convert_all raw of
             Inl e \<Rightarrow> Inl e
           | Inr ids \<Rightarrow>
               Inr (if dry_run then [] else map Item_create_or_update (remdups ids),
                    set ids)))"

section \<open>A concrete repository\<close>

text \<open>
  An environment to run the handlers in: a datestamp reader and writer for the two
  layouts \<open>YYYY-MM-DD\<close> and \<open>YYYY-MM-DDThh:mm:ssZ\<close>, a serialiser of flat JSON
  objects with its inverse on given objects, control characters as the illegal ones,
  and a store of three records whose listing is ordered by identifier and starts at
  the offset.
\<close>

definition example_number :: "string \<Rightarrow> nat option" where
  "example_number s = (if s = [] then None else index_of_digits 0 s)"

definition example_parse_date :: "string \<Rightarrow> time_of_day option \<Rightarrow> (datetime \<times> granularity) option" where
  "example_parse_date s default_time =
     (if length s = 10 \<and> s ! 4 = CHR ''-'' \<and> s ! 7 = CHR ''-'' then
        (case (example_number (take 4 s), example_number (take 2 (drop 5 s)),
               example_number (take 2 (drop 8 s))) of
           (Some y, Some m, Some d) \<Rightarrow>
             (case default_time of
                None \<Rightarrow> Some ((y, m, d, 0, 0, 0), Day)
              | Some (h, mi, sec) \<Rightarrow> Some ((y, m, d, h, mi, sec), Day))
         | _ \<Rightarrow> None)
      else if length s = 20 \<and> s ! 4 = CHR ''-'' \<and> s ! 7 = CHR ''-'' \<and> s ! 10 = CHR ''T''
              \<and> s ! 13 = CHR '':'' \<and> s ! 16 = CHR '':'' \<and> s ! 19 = CHR ''Z'' then
        (case (example_number (take 4 s), example_number (take 2 (drop 5 s)),
               example_number (take 2 (drop 8 s)), example_number (take 2 (drop 11 s)),
               example_number (take 2 (drop 14 s)), example_number (take 2 (drop 17 s))) of
           (Some y, Some m, Some d, Some h, Some mi, Some sec) \<Rightarrow>
             Some ((y, m, d, h, mi, sec), Second)
         | _ \<Rightarrow> None)
      else None)"

definition two_digits :: "nat \<Rightarrow> string" where
  "two_digits n = [''0123456789'' ! (n div 10 mod 10), ''0123456789'' ! (n mod 10)]"

definition example_format_datestamp :: "datetime \<Rightarrow> string" where
  "example_format_datestamp t =
     (case t of (y, m, d, h, mi, sec) \<Rightarrow>
        two_digits (y div 100) @ two_digits y @ ''-'' @ two_digits m @ ''-'' @ two_digits d
        @ ''T'' @ two_digits h @ '':'' @ two_digits mi @ '':'' @ two_digits sec @ ''Z'')"

fun example_atom :: "json \<Rightarrow> string" where
  "example_atom (JStr s) = quoted s"
| "example_atom _ = ''null''"

fun example_members :: "(string \<times> json) list \<Rightarrow> string" where
  "example_members [] = []"
| "example_members [kv] = quoted (fst kv) @ '': '' @ example_atom (snd kv)"
| "example_members (kv # kvs) =
     quoted (fst kv) @ '': '' @ example_atom (snd kv) @ '', '' @ example_members kvs"

fun example_json_dumps :: "json \<Rightarrow> string" where
  "example_json_dumps (JObj kvs) = ''{'' @ example_members kvs @ ''}''"
| "example_json_dumps j = example_atom j"

fun example_json_loads :: "json list \<Rightarrow> string \<Rightarrow> json option" where
  "example_json_loads [] s = None"
| "example_json_loads (j # js) s =
     (if s = example_json_dumps j then Some j else example_json_loads js s)"

definition example_illegal :: "char \<Rightarrow> bool" where
  "example_illegal c = (c < CHR 0x20 \<and> c \<noteq> CHR 0x09 \<and> c \<noteq> CHR 0x0A \<and> c \<noteq> CHR 0x0D)"

definition example_records :: "oai_record list" where
  "example_records =
     [\<lparr> record_identifier = ''i1'', record_prefix = ''oai_dc'',
        record_datestamp = (2014, 2, 4, 10, 0, 0) \<rparr>,
      \<lparr> record_identifier = ''i2'', record_prefix = ''oai_dc'',
        record_datestamp = (2014, 2, 4, 10, 0, 0) \<rparr>,
      \<lparr> record_identifier = ''i3'', record_prefix = ''oai_dc'',
        record_datestamp = (2014, 2, 4, 10, 0, 0) \<rparr>]"

definition example_Record_list :: "oai_record list \<Rightarrow> record_query \<Rightarrow> oai_record list" where
  "example_Record_list store q =
     take (case q_limit q of None \<Rightarrow> length store | Some n \<Rightarrow> nat n)
       (filter (\<lambda>r. Some (record_prefix r) = q_metadata_prefix q
                   \<and> (case q_offset q of None \<Rightarrow> True | Some off \<Rightarrow> off \<le> record_identifier r))
          store)"

definition example_fields :: "string \<Rightarrow> string \<Rightarrow> string \<Rightarrow> (string \<times> json) list" where
  "example_fields verb offset date =
     [(''verb'', JStr verb),
      (''metadataPrefix'', JStr ''oai_dc''),
      (''offset'', JStr offset),
      (''date'', JStr date),
      (''from'', JNull),
      (''until'', JNull),
      (''set'', JNull)]"

definition example_token :: "string \<Rightarrow> string \<Rightarrow> string \<Rightarrow> json" where
  "example_token verb offset date = JObj (example_fields verb offset date)"

definition example_env :: env where
  "example_env =
     \<lparr> contains_illegal_chars = list_ex example_illegal,
       filter_illegal_chars = filter (\<lambda>c. \<not> example_illegal c),
       parse_date = example_parse_date,
       format_datestamp = example_format_datestamp,
       json_loads = example_json_loads
         [example_token ''ListIdentifiers'' ''i3'' ''2014-02-04T10:54:27Z'',
          example_token ''ListSets'' ''i3'' ''2014-02-04T10:54:27Z'',
          example_token ''ListIdentifiers'' ''i9'' ''2014-02-04T10:54:27Z'',
          example_token ''ListIdentifiers'' ''i1'' ''2014-02-04T10:54:27Z''],
       json_dumps = example_json_dumps,
       Datestamp_get = Some (2014, 2, 4, 10, 0, 0),
       Set_list = [],
       Format_exists = (\<lambda>p ignore_deleted. p = Some ''oai_dc''),
       Record_list = example_Record_list example_records,
       item_list_limit = 2,
       deleted_records = ''no'' \<rparr>"

text \<open>
  Requests against that repository: a first ListIdentifiers request, and the replay of
  a token issued at 10:54:27 for a verb and an offset.
\<close>

definition example_first_request :: request where
  "example_first_request =
     \<lparr> req_params = [(''verb'', ''ListIdentifiers''), (''metadataPrefix'', ''oai_dc'')],
       req_time = (2014, 2, 4, 10, 54, 27) \<rparr>"

definition example_token_request :: "string \<Rightarrow> string \<Rightarrow> request" where
  "example_token_request verb offset =
     \<lparr> req_params =
         [(''verb'', verb),
          (''resumptionToken'',
           example_json_dumps (example_token verb offset ''2014-02-04T10:54:27Z''))],
       req_time = (2014, 2, 4, 11, 0, 0) \<rparr>"

text \<open>The same repository after a harvest at 10:54:27 has moved its datestamp.\<close>

definition example_env_harvested :: env where
  "example_env_harvested = example_env \<lparr> Datestamp_get := Some (2014, 2, 4, 10, 54, 27) \<rparr>"

text \<open>The same repository with no record in its store.\<close>

definition example_env_empty :: env where
  "example_env_empty = example_env \<lparr> Record_list := example_Record_list [] \<rparr>"

text \<open>The dict \<open>_get_resumption_token\<close> returns for a token of the repository.\<close>

definition example_token_params :: "string \<Rightarrow> string \<Rightarrow> params" where
  "example_token_params verb offset =
     Dict (map (\<lambda>kv. (fst kv, str_or_none (snd kv)))
             (example_fields verb offset ''2014-02-04T10:54:27Z''))"

section \<open>The message of \<open>NoMetadataFormats\<close>\<close>

lemma py_format_from_plain:
  "CHR ''{'' \<notin> set s \<Longrightarrow> CHR ''}'' \<notin> set s \<Longrightarrow> py_format_from st args Text s = Inr s"
  by (induction s) auto

lemma NoMetadataFormats_template_plain:
  "CHR ''{'' \<notin> set NoMetadataFormats_template \<and> CHR ''}'' \<notin> set NoMetadataFormats_template"
  by (simp add: NoMetadataFormats_template_def)

text \<open>
  C10. The template of \<open>NoMetadataFormats\<close> has the printf placeholder \<open>%s\<close> and no
  brace, so \<open>str.format\<close> returns it unchanged: for every identifier the message is
  the filtered template, and it is the literal text whenever the filter of illegal
  characters leaves that text alone. The identifier is never interpolated.
\<close>

theorem NoMetadataFormats_message_is_template:
  "message (NoMetadataFormats_init e ident) = filter_illegal_chars e NoMetadataFormats_template
   \<and> (filter_illegal_chars e NoMetadataFormats_template = NoMetadataFormats_template
        \<longrightarrow> message (NoMetadataFormats_init e ident)
            = ''No metadata formats available for item '' @ [CHR 0x22] @ ''%s'' @ [CHR 0x22] @ ''.'')"
proof -
  have "py_format NoMetadataFormats_template [ident] = Inr NoMetadataFormats_template"
    unfolding py_format_def
    using NoMetadataFormats_template_plain by (intro py_format_from_plain) simp_all
  then have "message (NoMetadataFormats_init e ident)
             = filter_illegal_chars e NoMetadataFormats_template"
    by (simp add: NoMetadataFormats_init_def)
  then show ?thesis
    by (simp add: NoMetadataFormats_template_def)
qed

theorem NoMetadataFormats_message_is_template_witness:
  "message (NoMetadataFormats_init example_env ''oai:example.org:item'')
   = ''No metadata formats available for item '' @ [CHR 0x22] @ ''%s'' @ [CHR 0x22] @ ''.''"
  using NoMetadataFormats_message_is_template [of example_env "''oai:example.org:item''"]
  by (simp add: example_env_def NoMetadataFormats_template_def example_illegal_def)

section \<open>The parameter validator\<close>

lemma check_names_error:
  "check_names e ps required allowed ks = Inl err \<Longrightarrow> \<exists>m. err = BadArgument m"
  by (induction ks) (auto simp: BadArgument_init_def split: if_splits option.splits)

lemma check_required_error:
  "check_required e ps required = Inl err \<Longrightarrow> \<exists>m. err = BadArgument m"
  by (induction required) (auto simp: BadArgument_init_def split: if_splits)

lemma check_names_ok:
  "check_names e ps required allowed ks = Inr () \<longleftrightarrow>
     (\<forall>k \<in> set ks. is_expected required allowed k \<and> \<not> is_repeated ps k
        \<and> (\<forall>v. get_param ps k = Some v \<longrightarrow> \<not> contains_illegal_chars e v))"
  by (induction ks) (auto split: option.splits)

lemma check_required_ok:
  "check_required e ps required = Inr () \<longleftrightarrow> (\<forall>p \<in> set required. contains_key ps p)"
  by (induction required) auto

lemma sum_unit_cases: "(x :: error + unit) = Inr () \<or> (\<exists>err. x = Inl err)"
  by (cases x) auto

lemma filter_key_single:
  "(k, v) \<in> set items \<Longrightarrow> length (filter (\<lambda>kv. fst kv = k) items) \<le> 1
   \<Longrightarrow> filter (\<lambda>kv. fst kv = k) items = [(k, v)]"
proof (induction items)
  case Nil
  then show ?case by simp
next
  case (Cons a items)
  show ?case
  proof (cases "fst a = k")
    case True
    with Cons.prems(2) have empty: "filter (\<lambda>kv. fst kv = k) items = []"
      by simp
    then have "(k, v) \<notin> set items"
      by (metis (mono_tags, lifting) filter_empty_conv fst_conv)
    with Cons.prems(1) have "a = (k, v)" by simp
    with empty show ?thesis by simp
  next
    case False
    with Cons show ?thesis by auto
  qed
qed

lemma map_of_filter_key:
  "map_of xs k = map_of (filter (\<lambda>kv. fst kv = k) xs) k"
  by (induction xs) auto

lemma map_of_rev_single:
  assumes "filter (\<lambda>kv. fst kv = k) items = [(k, v)]"
  shows "map_of (rev items) k = Some v"
proof -
  have "filter (\<lambda>kv. fst kv = k) (rev items) = [(k, v)]"
    using assms by (simp add: rev_filter [symmetric])
  then show ?thesis
    using map_of_filter_key [of "rev items" k] by simp
qed

lemma illegal_value_multidict:
  assumes "\<forall>k \<in> set (map fst items). length (getall (MultiDict items) k) \<le> 1"
  shows "list_ex (contains_illegal_chars e) (values_of (MultiDict items)) \<longleftrightarrow>
         (\<exists>k \<in> set (map fst items). \<exists>v. get_param (MultiDict items) k = Some v
            \<and> contains_illegal_chars e v)"
proof
  assume "list_ex (contains_illegal_chars e) (values_of (MultiDict items))"
  then obtain k v where kv: "(k, v) \<in> set items" and bad: "contains_illegal_chars e v"
    by (auto simp: list_ex_iff)
  from kv assms have "length (filter (\<lambda>kv. fst kv = k) items) \<le> 1"
    by force
  with kv have "map_of (rev items) k = Some v"
    by (intro map_of_rev_single filter_key_single)
  with kv bad show "\<exists>k \<in> set (map fst items). \<exists>v. get_param (MultiDict items) k = Some v
            \<and> contains_illegal_chars e v"
    by force
next
  assume "\<exists>k \<in> set (map fst items). \<exists>v. get_param (MultiDict items) k = Some v
            \<and> contains_illegal_chars e v"
  then obtain k v where "map_of (rev items) k = Some v" and bad: "contains_illegal_chars e v"
    by auto
  then have "(k, v) \<in> set items"
    by (auto dest: map_of_SomeD)
  with bad show "list_ex (contains_illegal_chars e) (values_of (MultiDict items))"
    by (force simp: list_ex_iff)
qed

lemma illegal_value_dict:
  "list_ex P (values_of (Dict items)) \<longleftrightarrow> (\<exists>k v. (k, Some v) \<in> set items \<and> P v)"
proof (induction items)
  case Nil
  then show ?case by simp
next
  case (Cons a items)
  obtain k v where a: "a = (k, v)" by (cases a)
  show ?case
  proof (cases v)
    case None
    with a Cons show ?thesis by auto
  next
    case (Some s)
    with a Cons show ?thesis by (simp, blast)
  qed
qed

lemma check_params_past_verb:
  assumes "contains_key ps ''verb''" and "length (getall ps ''verb'') \<le> 1"
  shows "check_params e ps required allowed =
      (case check_names e ps required allowed (names_of ps) of
         Inl err \<Rightarrow> Inl err | Inr _ \<Rightarrow> check_required e ps required)"
proof -
  from assms(2) have "\<not> 1 < length (getall ps ''verb'')" by simp
  with assms(1) show ?thesis
    unfolding check_params_def by simp
qed

text \<open>
  C4. \<open>_check_params\<close> fails with \<open>MissingVerb\<close> when no \<open>verb\<close> is present, with
  \<open>RepeatedVerb\<close> when \<open>verb\<close> is given more than once, with a \<open>BadArgument\<close> on
  any other violation (an unexpected name, a repeated name, a value with an illegal
  character, a missing required name), and succeeds otherwise. The parameters are a
  multidict, or a dict whose names are distinct.
\<close>

theorem check_params_outcome:
  assumes "\<forall>items. ps = Dict items \<longrightarrow> distinct (map fst items)"
  shows "(\<not> contains_key ps ''verb'' \<longrightarrow> check_params e ps required allowed = Inl MissingVerb)
    \<and> (contains_key ps ''verb'' \<and> length (getall ps ''verb'') > 1
         \<longrightarrow> check_params e ps required allowed = Inl RepeatedVerb)
    \<and> (contains_key ps ''verb'' \<and> length (getall ps ''verb'') \<le> 1
         \<and> other_violation e ps required allowed
         \<longrightarrow> (\<exists>m. check_params e ps required allowed = Inl (BadArgument m)))
    \<and> (contains_key ps ''verb'' \<and> length (getall ps ''verb'') \<le> 1
         \<and> \<not> other_violation e ps required allowed
         \<longrightarrow> check_params e ps required allowed = Inr ())"
proof (intro conjI impI)
  assume "\<not> contains_key ps ''verb''"
  then show "check_params e ps required allowed = Inl MissingVerb"
    by (simp add: check_params_def)
next
  assume "contains_key ps ''verb'' \<and> length (getall ps ''verb'') > 1"
  then show "check_params e ps required allowed = Inl RepeatedVerb"
    by (cases ps) (simp_all add: check_params_def)
next
  assume h: "contains_key ps ''verb'' \<and> length (getall ps ''verb'') \<le> 1
             \<and> other_violation e ps required allowed"
  have names: "check_names e ps required allowed (names_of ps) \<noteq> Inr ()
               \<or> check_required e ps required \<noteq> Inr ()"
  proof (rule ccontr)
    assume "\<not> ?thesis"
    then have ok: "check_names e ps required allowed (names_of ps) = Inr ()"
      and req: "check_required e ps required = Inr ()"
      by simp_all
    from ok have each: "\<forall>k \<in> set (names_of ps). is_expected required allowed k
        \<and> \<not> is_repeated ps k
        \<and> (\<forall>v. get_param ps k = Some v \<longrightarrow> \<not> contains_illegal_chars e v)"
      by (simp add: check_names_ok)
    from each have no_unexpected:
      "\<not> list_ex (\<lambda>k. k \<noteq> ''verb'' \<and> k \<notin> set allowed \<and> k \<notin> set required) (names_of ps)"
      by (auto simp: list_ex_iff is_expected_def)
    from each have no_repeat: "\<forall>k \<in> set (names_of ps). length (getall ps k) \<le> 1"
      by (cases ps) (auto simp: is_repeated_def not_less)
    then have no_repeated: "\<not> list_ex (\<lambda>k. length (getall ps k) > 1) (names_of ps)"
      by (auto simp: list_ex_iff not_less)
    have no_illegal: "\<not> list_ex (contains_illegal_chars e) (values_of ps)"
    proof (cases ps)
      case (MultiDict items)
      with no_repeat each show ?thesis
        using illegal_value_multidict [of items e] by auto
    next
      case (Dict items)
      with assms have d: "distinct (map fst items)" by simp
      show ?thesis
      proof
        assume "list_ex (contains_illegal_chars e) (values_of ps)"
        with Dict obtain k v where kv: "(k, Some v) \<in> set items"
          and bad: "contains_illegal_chars e v"
          using illegal_value_dict [of "contains_illegal_chars e" items] by blast
        from d kv have "map_of items k = Some (Some v)" by simp
        with Dict have "get_param ps k = Some v" by simp
        moreover from kv Dict have "k \<in> set (names_of ps)" by force
        ultimately show False using each bad by blast
      qed
    qed
    from req have "\<not> list_ex (\<lambda>p. \<not> contains_key ps p) required"
      by (simp add: check_required_ok list_ex_iff)
    with no_unexpected no_repeated no_illegal h show False
      by (simp add: other_violation_def)
  qed
  from h have "check_params e ps required allowed =
      (case check_names e ps required allowed (names_of ps) of
         Inl err \<Rightarrow> Inl err | Inr _ \<Rightarrow> check_required e ps required)"
    by (intro check_params_past_verb) simp_all
  with names show "\<exists>m. check_params e ps required allowed = Inl (BadArgument m)"
    using sum_unit_cases [of "check_names e ps required allowed (names_of ps)"]
      sum_unit_cases [of "check_required e ps required"]
    by (auto dest: check_names_error check_required_error)
next
  assume h: "contains_key ps ''verb'' \<and> length (getall ps ''verb'') \<le> 1
             \<and> \<not> other_violation e ps required allowed"
  then have nv: "\<not> list_ex (\<lambda>k. k \<noteq> ''verb'' \<and> k \<notin> set allowed \<and> k \<notin> set required) (names_of ps)"
    and nr: "\<not> list_ex (\<lambda>k. length (getall ps k) > 1) (names_of ps)"
    and ni: "\<not> list_ex (contains_illegal_chars e) (values_of ps)"
    and nm: "\<not> list_ex (\<lambda>p. \<not> contains_key ps p) required"
    by (simp_all add: other_violation_def)
  from nr have no_repeat: "\<forall>k \<in> set (names_of ps). length (getall ps k) \<le> 1"
    by (auto simp: list_ex_iff not_less)
  have legal: "\<forall>k \<in> set (names_of ps). \<forall>v. get_param ps k = Some v
      \<longrightarrow> \<not> contains_illegal_chars e v"
  proof (cases ps)
    case (MultiDict items)
    with no_repeat ni show ?thesis
      using illegal_value_multidict [of items e] by auto
  next
    case (Dict items)
    show ?thesis
    proof (intro ballI allI impI)
      fix k v
      assume "get_param ps k = Some v"
      with Dict have "map_of items k = Some (Some v)"
        by (auto split: option.splits)
      then have "(k, Some v) \<in> set items" by (rule map_of_SomeD)
      with ni Dict show "\<not> contains_illegal_chars e v"
        using illegal_value_dict [of "contains_illegal_chars e" items] by blast
    qed
  qed
  from nv nr legal have "check_names e ps required allowed (names_of ps) = Inr ()"
    by (auto simp: check_names_ok list_ex_iff is_expected_def is_repeated_def)
  moreover from nm have "check_required e ps required = Inr ()"
    by (simp add: check_required_ok list_ex_iff)
  ultimately show "check_params e ps required allowed = Inr ()"
    using h check_params_past_verb [of ps e required allowed] by simp
qed

theorem check_params_outcome_witness:
  "check_params example_env (MultiDict [(''metadataPrefix'', ''oai_dc'')])
     [''metadataPrefix''] [''from'', ''until'', ''set''] = Inl MissingVerb
   \<and> check_params example_env
       (MultiDict [(''verb'', ''ListRecords''), (''verb'', ''ListRecords'')])
       [''metadataPrefix''] [''from'', ''until'', ''set''] = Inl RepeatedVerb
   \<and> (\<exists>m. check_params example_env
       (MultiDict [(''verb'', ''ListRecords''), (''metadataPrefix'', ''oai_dc''),
                   (''identifier'', ''i1'')])
       [''metadataPrefix''] [''from'', ''until'', ''set''] = Inl (BadArgument m))
   \<and> check_params example_env
       (Dict [(''verb'', Some ''ListRecords''), (''metadataPrefix'', Some ''oai_dc''),
              (''from'', None)])
       [''metadataPrefix''] [''from'', ''until'', ''set''] = Inr ()"
proof (intro conjI)
  show "check_params example_env (MultiDict [(''metadataPrefix'', ''oai_dc'')])
     [''metadataPrefix''] [''from'', ''until'', ''set''] = Inl MissingVerb"
    using check_params_outcome [of "MultiDict [(''metadataPrefix'', ''oai_dc'')]" example_env
      "[''metadataPrefix'']" "[''from'', ''until'', ''set'']", THEN conjunct1]
    by simp
next
  show "check_params example_env
       (MultiDict [(''verb'', ''ListRecords''), (''verb'', ''ListRecords'')])
       [''metadataPrefix''] [''from'', ''until'', ''set''] = Inl RepeatedVerb"
    using check_params_outcome [of "MultiDict [(''verb'', ''ListRecords''), (''verb'', ''ListRecords'')]"
      example_env "[''metadataPrefix'']" "[''from'', ''until'', ''set'']",
      THEN conjunct2, THEN conjunct1]
    by simp
next
  show "\<exists>m. check_params example_env
       (MultiDict [(''verb'', ''ListRecords''), (''metadataPrefix'', ''oai_dc''),
                   (''identifier'', ''i1'')])
       [''metadataPrefix''] [''from'', ''until'', ''set''] = Inl (BadArgument m)"
    using check_params_outcome [of "MultiDict [(''verb'', ''ListRecords''),
      (''metadataPrefix'', ''oai_dc''), (''identifier'', ''i1'')]"
      example_env "[''metadataPrefix'']" "[''from'', ''until'', ''set'']",
      THEN conjunct2, THEN conjunct2, THEN conjunct1]
    by (simp add: other_violation_def)
next
  have legal: "\<not> list_ex (contains_illegal_chars example_env) [''ListRecords'', ''oai_dc'']"
    by (simp add: example_env_def example_illegal_def)
  show "check_params example_env
       (Dict [(''verb'', Some ''ListRecords''), (''metadataPrefix'', Some ''oai_dc''),
              (''from'', None)])
       [''metadataPrefix''] [''from'', ''until'', ''set''] = Inr ()"
    using legal check_params_outcome [of "Dict [(''verb'', Some ''ListRecords''),
      (''metadataPrefix'', Some ''oai_dc''), (''from'', None)]"
      example_env "[''metadataPrefix'']" "[''from'', ''until'', ''set'']",
      THEN conjunct2, THEN conjunct2, THEN conjunct2]
    by (simp add: other_violation_def)
qed

section \<open>The date range parser\<close>







section \<open>Set memberships in ancestor order\<close>

lemma prefix_less_eq: "prefix xs ys \<Longrightarrow> xs \<le> (ys :: string)"
proof (induction xs arbitrary: ys)
  case Nil
  then show ?case by simp
next
  case (Cons x xs)
  then obtain zs where "ys = x # zs" and "prefix xs zs"
    by (cases ys) auto
  with Cons.IH show ?case by simp
qed

lemma less_snoc: "xs < xs @ [c :: char]"
  by (induction xs) auto

lemma ancestor_spec_less: "is_ancestor_spec a b \<Longrightarrow> a < b"
proof -
  assume "is_ancestor_spec a b"
  then have "a @ '':'' \<le> b"
    by (simp add: is_ancestor_spec_def prefix_less_eq)
  moreover have "a < a @ '':''"
    by (rule less_snoc)
  ultimately show ?thesis by simp
qed

lemma created_upserts:
  "created (concat (map (\<lambda>sn. [Set_create_or_update (fst sn) (snd sn),
                                 Add_to_set ident (fst sn)]) xs)) = xs"
  by (induction xs) auto

lemma sorted_position:
  assumes "sorted (map fst xs)" and "i < length xs" and "j < length xs"
    and "fst (xs ! i) < fst (xs ! j)"
  shows "i < j"
proof (rule ccontr)
  assume "\<not> i < j"
  then have "j \<le> i" by simp
  with assms(1,2) have "map fst xs ! j \<le> map fst xs ! i"
    by (intro sorted_nth_mono) simp_all
  with assms(2,3,4) show False by simp
qed

text \<open>
  C8. For every sequence of (spec, name) pairs the provider returns for an
  identifier, \<open>update_sets\<close> looks the item up, clears its memberships, then upserts
  each set and adds the item to it, pair by pair in ascending order of the spec: the
  upserts are a permutation of the pairs, sorted by spec, each followed by the
  addition of the item to that set, and an ancestor spec is upserted before each of
  its descendants.
\<close>

theorem update_sets_ancestors_first:
  assumes "get_sets ident = Inr sets"
  shows "\<exists>calls. update_sets get_sets ident False = Inr calls
     \<and> take 2 calls = [Item_get ident, Clear_sets ident]
     \<and> drop 2 calls = concat (map (\<lambda>sn. [Set_create_or_update (fst sn) (snd sn),
                                           Add_to_set ident (fst sn)]) (created calls))
     \<and> mset (created calls) = mset sets
     \<and> sorted (map fst (created calls))
     \<and> (\<forall>i j. i < length (created calls) \<and> j < length (created calls)
            \<and> is_ancestor_spec (fst (created calls ! i)) (fst (created calls ! j))
          \<longrightarrow> i < j)"
proof -
  define upserts where "upserts = concat (map (\<lambda>sn. [Set_create_or_update (fst sn) (snd sn),
                                           Add_to_set ident (fst sn)]) (sort_key fst sets))"
  define calls where "calls = Item_get ident # Clear_sets ident # upserts"
  have run: "update_sets get_sets ident False = Inr calls"
    using assms by (simp add: update_sets_def calls_def upserts_def)
  have cr: "created calls = sort_key fst sets"
    by (simp add: calls_def upserts_def created_upserts)
  have head: "take 2 calls = [Item_get ident, Clear_sets ident]"
    by (simp add: calls_def)
  have tail: "drop 2 calls = concat (map (\<lambda>sn. [Set_create_or_update (fst sn) (snd sn),
                                           Add_to_set ident (fst sn)]) (created calls))"
    by (simp add: cr) (simp add: calls_def upserts_def)
  have perm: "mset (created calls) = mset sets"
    by (simp add: cr)
  have srt: "sorted (map fst (created calls))"
    by (simp add: cr)
  have anc: "\<forall>i j. i < length (created calls) \<and> j < length (created calls)
            \<and> is_ancestor_spec (fst (created calls ! i)) (fst (created calls ! j))
          \<longrightarrow> i < j"
    using srt by (auto intro: sorted_position dest: ancestor_spec_less)
  from run head tail perm srt anc show ?thesis by blast
qed

theorem update_sets_ancestors_first_witness:
  "update_sets (\<lambda>i. Inr [(''a:b'', ''Set B''), (''a'', ''Set A''), (''a:b:c'', ''Set C'')])
     ''oai:example.org:item'' False
   = Inr [Item_get ''oai:example.org:item'', Clear_sets ''oai:example.org:item'',
          Set_create_or_update ''a'' ''Set A'', Add_to_set ''oai:example.org:item'' ''a'',
          Set_create_or_update ''a:b'' ''Set B'', Add_to_set ''oai:example.org:item'' ''a:b'',
          Set_create_or_update ''a:b:c'' ''Set C'', Add_to_set ''oai:example.org:item'' ''a:b:c'']
   \<and> is_ancestor_spec ''a'' ''a:b:c''"
  using update_sets_ancestors_first
    [of "\<lambda>i. Inr [(''a:b'', ''Set B''), (''a'', ''Set A''), (''a:b:c'', ''Set C'')]"
        "''oai:example.org:item''" "[(''a:b'', ''Set B''), (''a'', ''Set A''), (''a:b:c'', ''Set C'')]"]
  by (simp add: update_sets_def is_ancestor_spec_def)

section \<open>Items are upserted once\<close>

lemma convert_all_Converts: "convert_all (map Converts ids) = Inr ids"
  by (induction ids) auto

lemma count_list_distinct:
  "distinct xs \<Longrightarrow> x \<in> set xs \<Longrightarrow> count_list xs x = 1"
  by (induction xs) auto

lemma count_upserts_remdups:
  assumes "i \<in> set ids"
  shows "count_list (map Item_create_or_update (remdups ids)) (Item_create_or_update i) = 1"
proof -
  have "inj Item_create_or_update"
    by (simp add: inj_def)
  then have "count_list (map Item_create_or_update (remdups ids)) (Item_create_or_update i)
             = count_list (remdups ids) i"
    by (rule count_list_map_conv)
  also have "\<dots> = 1"
    using assms by (intro count_list_distinct) simp_all
  finally show ?thesis .
qed

text \<open>
  C9. For every sequence of provider identifiers, with or without duplicates,
  \<open>update_items\<close> calls \<open>Item.create_or_update\<close> exactly once for each distinct
  identifier, makes no other upsert, and returns the set of the distinct identifiers.
  For \<open>['i2', 'i1', 'i3', 'i1', 'i1', 'i2']\<close> that is one upsert each of \<open>i1\<close>,
  \<open>i2\<close> and \<open>i3\<close>, and the result \<open>{'i1', 'i2', 'i3'}\<close>.
\<close>

theorem update_items_upserts_once:
  "\<exists>calls. update_items (Inr (map Converts ids)) purge False = Inr (calls, set ids)
     \<and> (\<forall>i \<in> set ids. count_list calls (Item_create_or_update i) = 1)
     \<and> set calls = Item_create_or_update ` set ids
     \<and> length calls = card (set ids)"
proof -
  have "update_items (Inr (map Converts ids)) purge False
        = Inr (map Item_create_or_update (remdups ids), set ids)"
    by (simp add: update_items_def convert_all_Converts)
  moreover have "\<forall>i \<in> set ids.
      count_list (map Item_create_or_update (remdups ids)) (Item_create_or_update i) = 1"
    by (simp add: count_upserts_remdups)
  moreover have "set (map Item_create_or_update (remdups ids)) = Item_create_or_update ` set ids"
    by simp
  moreover have "length (map Item_create_or_update (remdups ids)) = card (set ids)"
    by (simp add: length_remdups_card_conv)
  ultimately show ?thesis by blast
qed

theorem update_items_upserts_once_witness:
  "(\<exists>calls. update_items
       (Inr (map Converts [''i2'', ''i1'', ''i3'', ''i1'', ''i1'', ''i2''])) False False
       = Inr (calls, {''i1'', ''i2'', ''i3''})
     \<and> count_list calls (Item_create_or_update ''i1'') = 1
     \<and> count_list calls (Item_create_or_update ''i2'') = 1
     \<and> count_list calls (Item_create_or_update ''i3'') = 1
     \<and> length calls = 3)"
proof -
  have s: "set [''i2'', ''i1'', ''i3'', ''i1'', ''i1'', ''i2''] = {''i1'', ''i2'', ''i3''}"
    by auto
  have c: "card {''i1'', ''i2'', ''i3''} = 3"
    by simp
  from update_items_upserts_once [of "[''i2'', ''i1'', ''i3'', ''i1'', ''i1'', ''i2'']" False]
  obtain calls where
    "update_items (Inr (map Converts [''i2'', ''i1'', ''i3'', ''i1'', ''i1'', ''i2''])) False False
       = Inr (calls, set [''i2'', ''i1'', ''i3'', ''i1'', ''i1'', ''i2''])"
    and "\<forall>i \<in> set [''i2'', ''i1'', ''i3'', ''i1'', ''i1'', ''i2''].
           count_list calls (Item_create_or_update i) = 1"
    and "length calls = card (set [''i2'', ''i1'', ''i3'', ''i1'', ''i1'', ''i2''])"
    by blast
  with s c show ?thesis
    by (intro exI [of _ calls]) simp
qed

section \<open>Decoding a resumption token\<close>

lemma request_getitem_contains:
  "request_getitem items k = Inr v \<Longrightarrow> contains_key (MultiDict items) k"
proof -
  assume "request_getitem items k = Inr v"
  then have "map_of (rev items) k = Some v"
    by (simp add: request_getitem_def split: option.splits)
  then have "(k, v) \<in> set (rev items)"
    by (rule map_of_SomeD)
  then have "(k, v) \<in> set items" by simp
  then have "fst (k, v) \<in> fst ` set items" by (rule imageI)
  then show ?thesis by simp
qed

lemma contains_request_getitem:
  "contains_key (MultiDict items) k \<Longrightarrow> \<exists>v. request_getitem items k = Inr v"
proof -
  assume "contains_key (MultiDict items) k"
  then have "k \<in> fst ` set (rev items)" by simp
  then have "map_of (rev items) k \<noteq> None"
    by (simp only: map_of_eq_None_iff not_not)
  then show ?thesis
    by (auto simp: request_getitem_def)
qed

lemma check_params_has_verb:
  "check_params e ps required allowed = Inr () \<Longrightarrow> contains_key ps ''verb''"
  by (auto simp: check_params_def split: if_splits)

lemma map_of_token:
  "map_of (map (\<lambda>kv. (fst kv, str_or_none (snd kv))) parsed) k
   = map_option str_or_none (map_of parsed k)"
  by (induction parsed) auto

lemma get_resumption_token_decoded:
  assumes cp: "check_params e (MultiDict (req_params req)) [''resumptionToken''] [] = Inr ()"
    and raw: "request_getitem (req_params req) ''resumptionToken'' = Inr raw"
    and verb: "request_getitem (req_params req) ''verb'' = Inr verb"
    and loads: "json_loads e raw = Some (JObj parsed)"
    and typed: "\<not> list_ex (\<lambda>kv. \<not> is_none_or_str (snd kv)) parsed"
    and same: "map_of parsed ''verb'' = Some (JStr verb)"
  shows "get_resumption_token e req =
     (case check_resumption_token_date e (map (\<lambda>kv. (fst kv, str_or_none (snd kv))) parsed) of
        Inl err \<Rightarrow> Inl err
      | Inr _ \<Rightarrow> Inr (Some (map (\<lambda>kv. (fst kv, str_or_none (snd kv))) parsed)))"
proof -
  from raw have "contains_key (MultiDict (req_params req)) ''resumptionToken''"
    by (rule request_getitem_contains)
  with cp raw verb loads typed same show ?thesis
    by (simp add: get_resumption_token_def map_of_token Let_def)
qed

lemma check_resumption_token_date_expired:
  assumes "map_of tk ''date'' = Some (Some d)"
    and "parse_date e d None = Some (date, g)"
    and "Datestamp_get e = Some latest"
    and "date \<le> latest"
  shows "check_resumption_token_date e tk = Inl ExpiredResumptionToken"
  using assms by (simp add: check_resumption_token_date_def)

lemma check_resumption_token_date_fresh:
  assumes "map_of tk ''date'' = Some (Some d)"
    and "parse_date e d None = Some (date, g)"
    and "\<forall>latest. Datestamp_get e = Some latest \<longrightarrow> latest < date"
  shows "check_resumption_token_date e tk = Inr ()"
  using assms by (auto simp: check_resumption_token_date_def split: option.splits)

lemma check_resumption_token_date_error:
  "check_resumption_token_date e tk = Inl err
   \<Longrightarrow> err = InvalidResumptionToken \<or> err = ExpiredResumptionToken"
  by (auto simp: check_resumption_token_date_def split: option.splits if_splits)

text \<open>
  Once the parameters of a request with a token pass the check, decoding ends in one
  of two errors or returns a dict that holds at least the verb.
\<close>

lemma get_resumption_token_results:
  assumes cp: "check_params e (MultiDict (req_params req)) [''resumptionToken''] [] = Inr ()"
    and raw: "request_getitem (req_params req) ''resumptionToken'' = Inr raw"
  shows "get_resumption_token e req = Inl InvalidResumptionToken
       \<or> get_resumption_token e req = Inl ExpiredResumptionToken
       \<or> (\<exists>kv kvs. get_resumption_token e req = Inr (Some (kv # kvs)))"
proof -
  from raw have has: "contains_key (MultiDict (req_params req)) ''resumptionToken''"
    by (rule request_getitem_contains)
  from cp have "contains_key (MultiDict (req_params req)) ''verb''"
    by (rule check_params_has_verb)
  then obtain verb where verb: "request_getitem (req_params req) ''verb'' = Inr verb"
    using contains_request_getitem by blast
  show ?thesis
  proof (cases "\<exists>parsed. json_loads e raw = Some (JObj parsed)
                  \<and> \<not> list_ex (\<lambda>kv. \<not> is_none_or_str (snd kv)) parsed
                  \<and> map_of parsed ''verb'' = Some (JStr verb)")
    case True
    then obtain parsed where loads: "json_loads e raw = Some (JObj parsed)"
      and typed: "\<not> list_ex (\<lambda>kv. \<not> is_none_or_str (snd kv)) parsed"
      and same: "map_of parsed ''verb'' = Some (JStr verb)"
      by blast
    from same have "parsed \<noteq> []" by auto
    then obtain kv kvs where "map (\<lambda>kv. (fst kv, str_or_none (snd kv))) parsed = kv # kvs"
      by (cases parsed) auto
    with get_resumption_token_decoded [OF cp raw verb loads typed same]
    show ?thesis
      by (auto split: sum.splits dest: check_resumption_token_date_error)
  next
    case False
    have "get_resumption_token e req = Inl InvalidResumptionToken"
    proof (cases "json_loads e raw")
      case None
      with cp has raw show ?thesis
        by (simp add: get_resumption_token_def)
    next
      case (Some j)
      show ?thesis
      proof (cases j)
        case (JObj parsed)
        show ?thesis
        proof (cases "list_ex (\<lambda>kv. \<not> is_none_or_str (snd kv)) parsed")
          case True
          with cp has raw Some JObj show ?thesis
            by (simp add: get_resumption_token_def)
        next
          case typed: False
          with False Some JObj have diff: "map_of parsed ''verb'' \<noteq> Some (JStr verb)"
            by simp
          have "map_option str_or_none (map_of parsed ''verb'') \<noteq> Some (Some verb)"
          proof
            assume "map_option str_or_none (map_of parsed ''verb'') = Some (Some verb)"
            then obtain v where v: "map_of parsed ''verb'' = Some v" and "str_or_none v = Some verb"
              by auto
            then have "v = JStr verb" by (cases v) auto
            with v diff show False by simp
          qed
          then have "(case map_option str_or_none (map_of parsed ''verb'') of
                        None \<Rightarrow> None | Some v \<Rightarrow> v) \<noteq> Some verb"
            by (auto split: option.splits)
          with cp has raw verb Some JObj typed show ?thesis
            by (simp add: get_resumption_token_def map_of_token Let_def)
        qed
      qed (use cp has raw Some in \<open>simp_all add: get_resumption_token_def\<close>)
    qed
    then show ?thesis by simp
  qed
qed

lemma check_params_error_kind:
  assumes "check_params e ps required allowed = Inl err"
  shows "err = MissingVerb \<or> err = RepeatedVerb \<or> (\<exists>m. err = BadArgument m)"
proof (cases "contains_key ps ''verb'' \<and> length (getall ps ''verb'') \<le> 1")
  case True
  then have "check_params e ps required allowed =
      (case check_names e ps required allowed (names_of ps) of
         Inl err \<Rightarrow> Inl err | Inr _ \<Rightarrow> check_required e ps required)"
    by (intro check_params_past_verb) simp_all
  with assms show ?thesis
    by (auto split: sum.splits dest: check_names_error check_required_error)
next
  case False
  with assms show ?thesis
    by (cases ps) (auto simp: check_params_def split: if_splits)
qed

section \<open>ListSets and resumption tokens\<close>

text \<open>
  C7, as the code has it. A ListSets request that supplies a \<open>resumptionToken\<close>
  fails: with the error of the parameter check (\<open>resumptionToken\<close> the only name
  beside \<open>verb\<close>, neither repeated, no illegal character) when that check fails, and
  with \<open>InvalidResumptionToken\<close> otherwise, whatever the token holds, an expired
  token included.
\<close>

theorem list_sets_rejects_token:
  assumes "contains_key (MultiDict (req_params req)) ''resumptionToken''"
  shows "handle_list_sets e req =
     (case check_params e (MultiDict (req_params req)) [''resumptionToken''] [] of
        Inl err \<Rightarrow> Inl err
      | Inr _ \<Rightarrow> Inl InvalidResumptionToken)"
proof (cases "check_params e (MultiDict (req_params req)) [''resumptionToken''] []")
  case (Inl err)
  then have "err \<noteq> ExpiredResumptionToken"
    by (auto dest: check_params_error_kind)
  moreover from Inl assms have "get_resumption_token e req = Inl err"
    by (simp add: get_resumption_token_def)
  ultimately show ?thesis
    using Inl by (simp add: handle_list_sets_def)
next
  case (Inr u)
  then have cp: "check_params e (MultiDict (req_params req)) [''resumptionToken''] [] = Inr ()"
    by simp
  from assms obtain raw where raw: "request_getitem (req_params req) ''resumptionToken'' = Inr raw"
    using contains_request_getitem by blast
  from get_resumption_token_results [OF cp raw]
  have "handle_list_sets e req = Inl InvalidResumptionToken"
    by (auto simp: handle_list_sets_def)
  with Inr show ?thesis by simp
qed

theorem list_sets_rejects_token_witness:
  "handle_list_sets example_env_harvested (example_token_request ''ListSets'' ''i3'')
     = Inl InvalidResumptionToken
   \<and> get_resumption_token example_env_harvested (example_token_request ''ListSets'' ''i3'')
     = Inl ExpiredResumptionToken"
proof
  have supplied: "contains_key
      (MultiDict (req_params (example_token_request ''ListSets'' ''i3''))) ''resumptionToken''"
    by code_simp
  have checked: "check_params example_env_harvested
      (MultiDict (req_params (example_token_request ''ListSets'' ''i3'')))
      [''resumptionToken''] [] = Inr ()"
    by code_simp
  show "handle_list_sets example_env_harvested (example_token_request ''ListSets'' ''i3'')
     = Inl InvalidResumptionToken"
    using list_sets_rejects_token [OF supplied, of example_env_harvested] checked by simp
  show "get_resumption_token example_env_harvested (example_token_request ''ListSets'' ''i3'')
     = Inl ExpiredResumptionToken"
    by code_simp
qed

theorem list_sets_token_counterexample:
  "contains_key (MultiDict [(''verb'', ''ListSets''), (''resumptionToken'', ''x''),
                            (''foo'', ''bar'')]) ''resumptionToken''
   \<and> handle_list_sets example_env
       \<lparr> req_params = [(''verb'', ''ListSets''), (''resumptionToken'', ''x''), (''foo'', ''bar'')],
         req_time = (2014, 2, 4, 11, 0, 0) \<rparr>
     = Inl (BadArgument (''Illegal argument: '' @ quoted ''foo''))
   \<and> handle_list_sets example_env
       \<lparr> req_params = [(''verb'', ''ListSets''), (''resumptionToken'', ''x''), (''foo'', ''bar'')],
         req_time = (2014, 2, 4, 11, 0, 0) \<rparr>
     \<noteq> Inl InvalidResumptionToken"
  by code_simp

section \<open>Expired resumption tokens\<close>

text \<open>
  C2, as the code has it. Take a request whose parameters pass the check for a token
  request, whose token decodes to an object of strings and nulls with the verb of the
  request, and whose \<open>date\<close> field parses to a date not after the store's
  \<open>Datestamp\<close>. Decoding raises \<open>ExpiredResumptionToken\<close>, and the handler of
  ListIdentifiers and ListRecords lets that error through: it decodes the token
  before its \<open>try\<close>, so the caller sees \<open>ExpiredResumptionToken\<close>.
\<close>

theorem expired_token_surfaces_expired:
  assumes cp: "check_params e (MultiDict (req_params req)) [''resumptionToken''] [] = Inr ()"
    and raw: "request_getitem (req_params req) ''resumptionToken'' = Inr raw"
    and verb: "request_getitem (req_params req) ''verb'' = Inr verb"
    and loads: "json_loads e raw = Some (JObj parsed)"
    and typed: "\<not> list_ex (\<lambda>kv. \<not> is_none_or_str (snd kv)) parsed"
    and same: "map_of parsed ''verb'' = Some (JStr verb)"
    and field: "map_of parsed ''date'' = Some (JStr d)"
    and parses: "parse_date e d None = Some (date, g)"
    and latest: "Datestamp_get e = Some latest"
    and old: "date \<le> latest"
  shows "get_resumption_token e req = Inl ExpiredResumptionToken
       \<and> handle_list_items e req = Inl ExpiredResumptionToken"
proof -
  from field have "map_of (map (\<lambda>kv. (fst kv, str_or_none (snd kv))) parsed) ''date''
                   = Some (Some d)"
    by (simp add: map_of_token)
  then have "check_resumption_token_date e (map (\<lambda>kv. (fst kv, str_or_none (snd kv))) parsed)
             = Inl ExpiredResumptionToken"
    using parses latest old by (rule check_resumption_token_date_expired)
  with get_resumption_token_decoded [OF cp raw verb loads typed same]
  have decode: "get_resumption_token e req = Inl ExpiredResumptionToken"
    by simp
  then have "handle_list_items e req = Inl ExpiredResumptionToken"
    by (simp add: handle_list_items_def)
  with decode show ?thesis by simp
qed

theorem expired_token_surfaces_expired_witness:
  "get_resumption_token example_env_harvested (example_token_request ''ListIdentifiers'' ''i3'')
     = Inl ExpiredResumptionToken
   \<and> handle_list_items example_env_harvested (example_token_request ''ListIdentifiers'' ''i3'')
     = Inl ExpiredResumptionToken"
proof -
  have cp: "check_params example_env_harvested
      (MultiDict (req_params (example_token_request ''ListIdentifiers'' ''i3'')))
      [''resumptionToken''] [] = Inr ()"
    by code_simp
  have raw: "request_getitem (req_params (example_token_request ''ListIdentifiers'' ''i3''))
      ''resumptionToken''
      = Inr (example_json_dumps (example_token ''ListIdentifiers'' ''i3'' ''2014-02-04T10:54:27Z''))"
    by code_simp
  have verb: "request_getitem (req_params (example_token_request ''ListIdentifiers'' ''i3''))
      ''verb'' = Inr ''ListIdentifiers''"
    by code_simp
  have loads: "json_loads example_env_harvested
      (example_json_dumps (example_token ''ListIdentifiers'' ''i3'' ''2014-02-04T10:54:27Z''))
      = Some (JObj (example_fields ''ListIdentifiers'' ''i3'' ''2014-02-04T10:54:27Z''))"
    by code_simp
  have typed: "\<not> list_ex (\<lambda>kv. \<not> is_none_or_str (snd kv))
      (example_fields ''ListIdentifiers'' ''i3'' ''2014-02-04T10:54:27Z'')"
    by code_simp
  have same: "map_of (example_fields ''ListIdentifiers'' ''i3'' ''2014-02-04T10:54:27Z'') ''verb''
      = Some (JStr ''ListIdentifiers'')"
    by code_simp
  have field: "map_of (example_fields ''ListIdentifiers'' ''i3'' ''2014-02-04T10:54:27Z'') ''date''
      = Some (JStr ''2014-02-04T10:54:27Z'')"
    by code_simp
  have parses: "parse_date example_env_harvested ''2014-02-04T10:54:27Z'' None
      = Some ((2014, 2, 4, 10, 54, 27), Second)"
    by code_simp
  have latest: "Datestamp_get example_env_harvested = Some (2014, 2, 4, 10, 54, 27)"
    by code_simp
  have old: "((2014, 2, 4, 10, 54, 27) :: datetime) \<le> (2014, 2, 4, 10, 54, 27)"
    by simp
  show ?thesis
    by (rule expired_token_surfaces_expired
          [OF cp raw verb loads typed same field parses latest old])
qed

theorem expired_token_counterexample:
  "get_resumption_token example_env_harvested (example_token_request ''ListIdentifiers'' ''i3'')
     = Inl ExpiredResumptionToken
   \<and> handle_list_items example_env_harvested (example_token_request ''ListIdentifiers'' ''i3'')
     \<noteq> Inl InvalidResumptionToken"
  by code_simp

section \<open>Round trip of a resumption token\<close>

lemma str_or_none_json_of: "str_or_none (json_of x) = x"
  by (cases x) simp_all

lemma is_none_or_str_json_of: "is_none_or_str (json_of x)"
  by (cases x) simp_all

lemma check_params_token_request:
  assumes "\<not> contains_illegal_chars e verb" and "\<not> contains_illegal_chars e tok"
  shows "check_params e (MultiDict [(''verb'', verb), (''resumptionToken'', tok)])
           [''resumptionToken''] [] = Inr ()"
  using assms by (simp add: check_params_def is_expected_def is_repeated_def)

text \<open>
  C3. Encode the fields \<open>verb\<close>, \<open>metadataPrefix\<close>, \<open>offset\<close>, \<open>date\<close>,
  \<open>from\<close>, \<open>until\<close> and \<open>set\<close> for any parameters, any offset and an issue time
  after the store's \<open>Datestamp\<close>, and decode the string in a request of the same
  verb: the decoded token has exactly the encoded fields. The functions of \<open>json\<close>
  and \<open>util\<close> are taken with their contracts: \<open>loads\<close> inverts \<open>dumps\<close> on the
  object, \<open>parse_date\<close> inverts \<open>format_datestamp\<close> on the time, and neither
  the verb nor the serialised token has an illegal character.
\<close>

theorem token_round_trip:
  assumes verb: "getitem ps ''verb'' = Inr (Some verb)"
    and mp: "getitem ps ''metadataPrefix'' = Inr mp"
    and members: "members =
       [(''verb'', JStr verb),
        (''metadataPrefix'', json_of mp),
        (''offset'', JStr offset),
        (''date'', JStr (format_datestamp e time)),
        (''from'', json_of (get_param ps ''from'')),
        (''until'', json_of (get_param ps ''until'')),
        (''set'', json_of (get_param ps ''set''))]"
    and loads: "json_loads e (json_dumps e (JObj members)) = Some (JObj members)"
    and legal_verb: "\<not> contains_illegal_chars e verb"
    and legal_token: "\<not> contains_illegal_chars e (json_dumps e (JObj members))"
    and date: "parse_date e (format_datestamp e time) None = Some (time, g)"
    and fresh: "\<forall>latest. Datestamp_get e = Some latest \<longrightarrow> latest < time"
  shows "\<exists>tok. create_resumption_token e ps offset time = Inr tok
     \<and> get_resumption_token e
         \<lparr> req_params = [(''verb'', verb), (''resumptionToken'', tok)], req_time = now \<rparr>
       = Inr (Some [(''verb'', Some verb),
                    (''metadataPrefix'', mp),
                    (''offset'', Some offset),
                    (''date'', Some (format_datestamp e time)),
                    (''from'', get_param ps ''from''),
                    (''until'', get_param ps ''until''),
                    (''set'', get_param ps ''set'')])"
proof -
  define tok where "tok = json_dumps e (JObj members)"
  define req where
    "req = \<lparr> req_params = [(''verb'', verb), (''resumptionToken'', tok)], req_time = now \<rparr>"
  have encode: "create_resumption_token e ps offset time = Inr tok"
    using verb mp by (simp add: create_resumption_token_def tok_def members)
  have cp: "check_params e (MultiDict (req_params req)) [''resumptionToken''] [] = Inr ()"
    using legal_verb legal_token
    by (simp add: req_def tok_def check_params_token_request)
  have raw: "request_getitem (req_params req) ''resumptionToken'' = Inr tok"
    by (simp add: req_def request_getitem_def)
  have rverb: "request_getitem (req_params req) ''verb'' = Inr verb"
    by (simp add: req_def request_getitem_def)
  have parsed: "json_loads e tok = Some (JObj members)"
    using loads by (simp add: tok_def)
  have typed: "\<not> list_ex (\<lambda>kv. \<not> is_none_or_str (snd kv)) members"
    by (simp add: members is_none_or_str_json_of)
  have same: "map_of members ''verb'' = Some (JStr verb)"
    by (simp add: members)
  have decoded: "map (\<lambda>kv. (fst kv, str_or_none (snd kv))) members =
      [(''verb'', Some verb),
       (''metadataPrefix'', mp),
       (''offset'', Some offset),
       (''date'', Some (format_datestamp e time)),
       (''from'', get_param ps ''from''),
       (''until'', get_param ps ''until''),
       (''set'', get_param ps ''set'')]"
    by (simp add: members str_or_none_json_of)
  have "map_of (map (\<lambda>kv. (fst kv, str_or_none (snd kv))) members) ''date''
        = Some (Some (format_datestamp e time))"
    by (simp add: decoded)
  then have "check_resumption_token_date e (map (\<lambda>kv. (fst kv, str_or_none (snd kv))) members)
             = Inr ()"
    using date fresh by (rule check_resumption_token_date_fresh)
  with get_resumption_token_decoded [OF cp raw rverb parsed typed same]
  have "get_resumption_token e req
        = Inr (Some (map (\<lambda>kv. (fst kv, str_or_none (snd kv))) members))"
    by simp
  with encode show ?thesis
    unfolding decoded req_def by blast
qed

theorem token_round_trip_witness:
  "\<exists>tok. create_resumption_token example_env
            (MultiDict (req_params example_first_request)) ''i3'' (2014, 2, 4, 10, 54, 27)
          = Inr tok
     \<and> get_resumption_token example_env
         \<lparr> req_params = [(''verb'', ''ListIdentifiers''), (''resumptionToken'', tok)],
           req_time = (2014, 2, 4, 11, 0, 0) \<rparr>
       = Inr (Some [(''verb'', Some ''ListIdentifiers''),
                    (''metadataPrefix'', Some ''oai_dc''),
                    (''offset'', Some ''i3''),
                    (''date'', Some ''2014-02-04T10:54:27Z''),
                    (''from'', None),
                    (''until'', None),
                    (''set'', None)])"
proof -
  let ?ps = "MultiDict (req_params example_first_request)"
  let ?members = "example_fields ''ListIdentifiers'' ''i3'' ''2014-02-04T10:54:27Z''"
  have verb: "getitem ?ps ''verb'' = Inr (Some ''ListIdentifiers'')"
    by code_simp
  have mp: "getitem ?ps ''metadataPrefix'' = Inr (Some ''oai_dc'')"
    by code_simp
  have stamp: "format_datestamp example_env (2014, 2, 4, 10, 54, 27) = ''2014-02-04T10:54:27Z''"
    by code_simp
  have absent: "get_param ?ps ''from'' = None" "get_param ?ps ''until'' = None"
    "get_param ?ps ''set'' = None"
    by code_simp+
  have members: "?members =
       [(''verb'', JStr ''ListIdentifiers''),
        (''metadataPrefix'', json_of (Some ''oai_dc'')),
        (''offset'', JStr ''i3''),
        (''date'', JStr (format_datestamp example_env (2014, 2, 4, 10, 54, 27))),
        (''from'', json_of (get_param ?ps ''from'')),
        (''until'', json_of (get_param ?ps ''until'')),
        (''set'', json_of (get_param ?ps ''set''))]"
    by code_simp
  have loads: "json_loads example_env (json_dumps example_env (JObj ?members))
               = Some (JObj ?members)"
    by code_simp
  have legal_verb: "\<not> contains_illegal_chars example_env ''ListIdentifiers''"
    by code_simp
  have legal_token: "\<not> contains_illegal_chars example_env (json_dumps example_env (JObj ?members))"
    by code_simp
  have date: "parse_date example_env (format_datestamp example_env (2014, 2, 4, 10, 54, 27)) None
              = Some ((2014, 2, 4, 10, 54, 27), Second)"
    by code_simp
  have fresh: "\<forall>latest. Datestamp_get example_env = Some latest
                 \<longrightarrow> latest < (2014, 2, 4, 10, 54, 27)"
    by (simp add: example_env_def)
  from token_round_trip [OF verb mp members loads legal_verb legal_token date fresh,
      where now = "(2014, 2, 4, 11, 0, 0)"]
  show ?thesis
    by (simp only: stamp absent)
qed

section \<open>Requests that match no record\<close>

lemma get_records_none:
  assumes "get_metadata_prefix e ps ignore_deleted = Inr p"
    and "parse_from_and_until e (get_param ps ''from'') (get_param ps ''until'') = Inr (fd, ud)"
    and "get_param ps ''set'' = None \<or> Set_list e \<noteq> []"
    and "Record_list e (list_query ps p fd ud ignore_deleted limit) = []"
  shows "get_records e ps ignore_deleted limit = Inl NoRecordsMatch"
  using assms by (auto simp: get_records_def)

text \<open>
  C5, as the code has it. Let the effective parameters of a ListIdentifiers or
  ListRecords request pass every validation and match no record. Without a
  resumption token the handler raises \<open>NoRecordsMatch\<close>; when the parameters come
  from a replayed token, the \<open>except\<close> clause of the handler turns that error, as
  every protocol error of the replay, into \<open>InvalidResumptionToken\<close>.
\<close>

theorem no_records_match_or_invalid_token:
  assumes decoded: "get_resumption_token e req = Inr tk"
    and checked: "check_params e (effective_params tk req)
         (required_names (tk \<noteq> None)) (allowed_names (tk \<noteq> None)) = Inr ()"
    and format: "get_metadata_prefix e (effective_params tk req) (get_ignore_deleted e) = Inr p"
    and dates: "parse_from_and_until e (get_param (effective_params tk req) ''from'')
         (get_param (effective_params tk req) ''until'') = Inr (fd, ud)"
    and sets: "get_param (effective_params tk req) ''set'' = None \<or> Set_list e \<noteq> []"
    and empty: "Record_list e (list_query (effective_params tk req) p fd ud
         (get_ignore_deleted e) (item_list_limit e)) = []"
  shows "handle_list_items e req =
     (if tk = None then Inl NoRecordsMatch else Inl InvalidResumptionToken)"
proof -
  have "get_records e (effective_params tk req) (get_ignore_deleted e) (item_list_limit e)
        = Inl NoRecordsMatch"
    using format dates sets empty by (rule get_records_none)
  with decoded checked show ?thesis
    by (simp add: handle_list_items_def Let_def)
qed

theorem no_records_match_or_invalid_token_witness:
  "handle_list_items example_env_empty example_first_request = Inl NoRecordsMatch
   \<and> handle_list_items example_env (example_token_request ''ListIdentifiers'' ''i9'')
     = Inl InvalidResumptionToken"
proof
  let ?ps = "MultiDict (req_params example_first_request)"
  have decoded: "get_resumption_token example_env_empty example_first_request = Inr None"
    by code_simp
  have ps: "effective_params None example_first_request = ?ps"
    by simp
  have checked: "check_params example_env_empty ?ps
      (required_names (None \<noteq> (None :: (string \<times> string option) list option)))
      (allowed_names (None \<noteq> (None :: (string \<times> string option) list option))) = Inr ()"
    by code_simp
  have format: "get_metadata_prefix example_env_empty ?ps (get_ignore_deleted example_env_empty)
      = Inr (Some ''oai_dc'')"
    by code_simp
  have dates: "parse_from_and_until example_env_empty (get_param ?ps ''from'')
      (get_param ?ps ''until'') = Inr (None, None)"
    by code_simp
  have sets: "get_param ?ps ''set'' = None \<or> Set_list example_env_empty \<noteq> []"
    by code_simp
  have empty: "Record_list example_env_empty (list_query ?ps (Some ''oai_dc'') None None
      (get_ignore_deleted example_env_empty) (item_list_limit example_env_empty)) = []"
    by code_simp
  show "handle_list_items example_env_empty example_first_request = Inl NoRecordsMatch"
    using no_records_match_or_invalid_token
      [of example_env_empty example_first_request None "Some ''oai_dc''" None None]
      decoded checked format dates sets empty
    by (simp only: ps if_True simp_thms)
next
  let ?req = "example_token_request ''ListIdentifiers'' ''i9''"
  let ?tk = "map (\<lambda>kv. (fst kv, str_or_none (snd kv)))
               (example_fields ''ListIdentifiers'' ''i9'' ''2014-02-04T10:54:27Z'')"
  let ?ps = "example_token_params ''ListIdentifiers'' ''i9''"
  have decoded: "get_resumption_token example_env ?req = Inr (Some ?tk)"
    by code_simp
  have ps: "effective_params (Some ?tk) ?req = ?ps"
    by code_simp
  have some: "(Some ?tk \<noteq> None) = True" "(Some ?tk = None) = False"
    by simp_all
  have checked: "check_params example_env ?ps (required_names True) (allowed_names True) = Inr ()"
    by code_simp
  have format: "get_metadata_prefix example_env ?ps (get_ignore_deleted example_env)
      = Inr (Some ''oai_dc'')"
    by code_simp
  have dates: "parse_from_and_until example_env (get_param ?ps ''from'') (get_param ?ps ''until'')
      = Inr (None, None)"
    by code_simp
  have sets: "get_param ?ps ''set'' = None \<or> Set_list example_env \<noteq> []"
    by code_simp
  have empty: "Record_list example_env (list_query ?ps (Some ''oai_dc'') None None
      (get_ignore_deleted example_env) (item_list_limit example_env)) = []"
    by code_simp
  show "handle_list_items example_env ?req = Inl InvalidResumptionToken"
    using no_records_match_or_invalid_token
      [of example_env ?req "Some ?tk" "Some ''oai_dc''" None None]
      decoded checked format dates sets empty
    by (simp only: ps some if_False simp_thms)
qed

theorem no_records_match_counterexample:
  "get_resumption_token example_env (example_token_request ''ListIdentifiers'' ''i9'')
     = Inr (Some (map (\<lambda>kv. (fst kv, str_or_none (snd kv)))
                    (example_fields ''ListIdentifiers'' ''i9'' ''2014-02-04T10:54:27Z'')))
   \<and> get_records example_env (example_token_params ''ListIdentifiers'' ''i9'')
       (get_ignore_deleted example_env) (item_list_limit example_env) = Inl NoRecordsMatch
   \<and> handle_list_items example_env (example_token_request ''ListIdentifiers'' ''i9'')
     = Inl InvalidResumptionToken
   \<and> handle_list_items example_env (example_token_request ''ListIdentifiers'' ''i9'')
     \<noteq> Inl NoRecordsMatch"
  by code_simp

section \<open>Pagination with one record of lookahead\<close>

lemma get_resumption_token_has_token:
  assumes "get_resumption_token e req = Inr tk"
  shows "(tk \<noteq> None) = contains_key (MultiDict (req_params req)) ''resumptionToken''"
proof (cases "contains_key (MultiDict (req_params req)) ''resumptionToken''")
  case False
  with assms show ?thesis
    by (simp add: get_resumption_token_def)
next
  case True
  then obtain raw where raw: "request_getitem (req_params req) ''resumptionToken'' = Inr raw"
    using contains_request_getitem by blast
  show ?thesis
  proof (cases "check_params e (MultiDict (req_params req)) [''resumptionToken''] []")
    case (Inl err)
    with True assms show ?thesis
      by (simp add: get_resumption_token_def)
  next
    case (Inr u)
    then have "check_params e (MultiDict (req_params req)) [''resumptionToken''] [] = Inr ()"
      by simp
    from get_resumption_token_results [OF this raw] assms True show ?thesis
      by auto
  qed
qed

lemma lookahead_split:
  assumes "int (length recs) = limit + 1" and "recs \<noteq> []"
  shows "butlast recs = take (nat limit) recs \<and> last recs = recs ! nat limit"
proof -
  from assms(2) have "0 < length recs" by simp
  with assms(1) have n: "nat limit = length recs - 1" by linarith
  with assms(2) show ?thesis
    by (simp add: butlast_conv_take last_conv_nth)
qed

lemma getitem_present:
  "contains_key ps k \<Longrightarrow> \<exists>v. getitem ps k = Inr v"
proof (cases ps)
  case (MultiDict items)
  assume "contains_key ps k"
  with MultiDict have "k \<in> fst ` set (rev items)" by simp
  then have "map_of (rev items) k \<noteq> None"
    by (simp only: map_of_eq_None_iff not_not)
  with MultiDict show ?thesis by auto
next
  case (Dict items)
  assume "contains_key ps k"
  with Dict have "k \<in> fst ` set items" by simp
  then have "map_of items k \<noteq> None"
    by (simp only: map_of_eq_None_iff not_not)
  with Dict show ?thesis by auto
qed

lemma check_params_has_required:
  assumes "check_params e ps required allowed = Inr ()" and "k \<in> set required"
  shows "contains_key ps k"
proof -
  from assms(1) have "check_required e ps required = Inr ()"
    by (auto simp: check_params_def split: if_splits sum.splits)
  with assms(2) show ?thesis
    by (simp add: check_required_ok)
qed

lemma get_records_some:
  assumes "get_metadata_prefix e ps ignore_deleted = Inr p"
    and "parse_from_and_until e (get_param ps ''from'') (get_param ps ''until'') = Inr (fd, ud)"
    and "get_param ps ''set'' = None \<or> Set_list e \<noteq> []"
    and "recs = Record_list e (list_query ps p fd ud ignore_deleted limit)"
    and "recs \<noteq> []"
  shows "get_records e ps ignore_deleted limit =
     (if int (length recs) = limit + 1
      then Inr (butlast recs, Some (record_identifier (last recs)))
      else Inr (recs, None))"
  using assms by (auto simp: get_records_def Let_def)

text \<open>
  C1, as the code has it. Let the effective parameters of a ListIdentifiers or
  ListRecords request (the decoded token, or the request's own parameters) pass the
  validation. The handler asks the store for \<open>limit + 1\<close> records with those
  parameters. If exactly \<open>limit + 1\<close> records come back, it answers with the first
  \<open>limit\<close> of them and a fresh token built from the effective parameters, whose
  \<open>offset\<close> is the identifier of the extra record, the first one not emitted, and
  whose \<open>date\<close> is the time of the request. If another number of records comes
  back, at least one, it answers with all of them, and with the empty token when the
  request carried a resumption token and no token when it did not. If none comes
  back it raises \<open>NoRecordsMatch\<close>, turned into \<open>InvalidResumptionToken\<close> on a
  replay.
\<close>

theorem list_items_lookahead:
  assumes decoded: "get_resumption_token e req = Inr tk"
    and checked: "check_params e (effective_params tk req)
         (required_names (tk \<noteq> None)) (allowed_names (tk \<noteq> None)) = Inr ()"
    and format: "get_metadata_prefix e (effective_params tk req) (get_ignore_deleted e) = Inr p"
    and dates: "parse_from_and_until e (get_param (effective_params tk req) ''from'')
         (get_param (effective_params tk req) ''until'') = Inr (fd, ud)"
    and sets: "get_param (effective_params tk req) ''set'' = None \<or> Set_list e \<noteq> []"
    and fetch: "recs = Record_list e (list_query (effective_params tk req) p fd ud
         (get_ignore_deleted e) (item_list_limit e))"
  shows "q_limit (list_query (effective_params tk req) p fd ud
                    (get_ignore_deleted e) (item_list_limit e))
           = Some (item_list_limit e + 1)
     \<and> (recs \<noteq> [] \<and> int (length recs) = item_list_limit e + 1 \<longrightarrow>
          (\<exists>verb mp.
             getitem (effective_params tk req) ''verb'' = Inr verb
           \<and> getitem (effective_params tk req) ''metadataPrefix'' = Inr mp
           \<and> handle_list_items e req =
               Inr \<lparr> records = take (nat (item_list_limit e)) recs,
                     token = Some (json_dumps e (JObj
                       [(''verb'', json_of verb),
                        (''metadataPrefix'', json_of mp),
                        (''offset'',
                         JStr (record_identifier (recs ! nat (item_list_limit e)))),
                        (''date'', JStr (format_datestamp e (req_time req))),
                        (''from'', json_of (get_param (effective_params tk req) ''from'')),
                        (''until'', json_of (get_param (effective_params tk req) ''until'')),
                        (''set'', json_of (get_param (effective_params tk req) ''set''))])) \<rparr>))
     \<and> (recs \<noteq> [] \<and> int (length recs) \<noteq> item_list_limit e + 1 \<longrightarrow>
          handle_list_items e req =
            Inr \<lparr> records = recs,
                  token = (if contains_key (MultiDict (req_params req)) ''resumptionToken''
                           then Some [] else None) \<rparr>)
     \<and> (recs = [] \<longrightarrow>
          handle_list_items e req =
            (if contains_key (MultiDict (req_params req)) ''resumptionToken''
             then Inl InvalidResumptionToken else Inl NoRecordsMatch))"
proof (intro conjI impI)
  let ?ps = "effective_params tk req"
  have has: "(tk \<noteq> None) = contains_key (MultiDict (req_params req)) ''resumptionToken''"
    using decoded by (rule get_resumption_token_has_token)
  show "q_limit (list_query ?ps p fd ud (get_ignore_deleted e) (item_list_limit e))
          = Some (item_list_limit e + 1)"
    by (simp add: list_query_def)
  {
    assume more: "recs \<noteq> [] \<and> int (length recs) = item_list_limit e + 1"
    then have nonempty: "recs \<noteq> []" and full: "int (length recs) = item_list_limit e + 1"
      by simp_all
    from checked have "contains_key ?ps ''verb''"
      by (rule check_params_has_verb)
    then obtain verb where verb: "getitem ?ps ''verb'' = Inr verb"
      using getitem_present by blast
    have "''metadataPrefix'' \<in> set (required_names (tk \<noteq> None))"
      by (simp add: required_names_def)
    with checked have "contains_key ?ps ''metadataPrefix''"
      by (rule check_params_has_required)
    then obtain mp where mp: "getitem ?ps ''metadataPrefix'' = Inr mp"
      using getitem_present by blast
    from get_records_some [OF format dates sets fetch nonempty] full
      lookahead_split [OF full nonempty]
    have fetched: "get_records e ?ps (get_ignore_deleted e) (item_list_limit e)
        = Inr (take (nat (item_list_limit e)) recs,
               Some (record_identifier (recs ! nat (item_list_limit e))))"
      by simp
    have "handle_list_items e req =
               Inr \<lparr> records = take (nat (item_list_limit e)) recs,
                     token = Some (json_dumps e (JObj
                       [(''verb'', json_of verb),
                        (''metadataPrefix'', json_of mp),
                        (''offset'',
                         JStr (record_identifier (recs ! nat (item_list_limit e)))),
                        (''date'', JStr (format_datestamp e (req_time req))),
                        (''from'', json_of (get_param ?ps ''from'')),
                        (''until'', json_of (get_param ?ps ''until'')),
                        (''set'', json_of (get_param ?ps ''set''))])) \<rparr>"
      using decoded checked fetched verb mp
      by (simp add: handle_list_items_def Let_def create_resumption_token_def)
    with verb mp show "\<exists>verb mp.
             getitem ?ps ''verb'' = Inr verb
           \<and> getitem ?ps ''metadataPrefix'' = Inr mp
           \<and> handle_list_items e req =
               Inr \<lparr> records = take (nat (item_list_limit e)) recs,
                     token = Some (json_dumps e (JObj
                       [(''verb'', json_of verb),
                        (''metadataPrefix'', json_of mp),
                        (''offset'',
                         JStr (record_identifier (recs ! nat (item_list_limit e)))),
                        (''date'', JStr (format_datestamp e (req_time req))),
                        (''from'', json_of (get_param ?ps ''from'')),
                        (''until'', json_of (get_param ?ps ''until'')),
                        (''set'', json_of (get_param ?ps ''set''))])) \<rparr>"
      by blast
  }
  {
    assume rest: "recs \<noteq> [] \<and> int (length recs) \<noteq> item_list_limit e + 1"
    then have nonempty: "recs \<noteq> []" by simp
    from get_records_some [OF format dates sets fetch nonempty] rest
    have fetched: "get_records e ?ps (get_ignore_deleted e) (item_list_limit e)
        = Inr (recs, None)"
      by simp
    from decoded checked fetched have "handle_list_items e req =
        Inr \<lparr> records = recs, token = (if tk \<noteq> None then Some [] else None) \<rparr>"
      by (simp add: handle_list_items_def Let_def)
    with has show "handle_list_items e req =
            Inr \<lparr> records = recs,
                  token = (if contains_key (MultiDict (req_params req)) ''resumptionToken''
                           then Some [] else None) \<rparr>"
      by simp
  }
  {
    assume "recs = []"
    with fetch have "Record_list e (list_query ?ps p fd ud
         (get_ignore_deleted e) (item_list_limit e)) = []"
      by simp
    with format dates sets
    have "get_records e ?ps (get_ignore_deleted e) (item_list_limit e) = Inl NoRecordsMatch"
      by (rule get_records_none)
    with decoded checked have "handle_list_items e req =
        (if tk \<noteq> None then Inl InvalidResumptionToken else Inl NoRecordsMatch)"
      by (simp add: handle_list_items_def Let_def)
    with has show "handle_list_items e req =
            (if contains_key (MultiDict (req_params req)) ''resumptionToken''
             then Inl InvalidResumptionToken else Inl NoRecordsMatch)"
      by simp
  }
qed

theorem list_items_lookahead_witness:
  "handle_list_items example_env example_first_request
     = Inr \<lparr> records = take 2 example_records,
             token = Some (example_json_dumps
                       (example_token ''ListIdentifiers'' ''i3'' ''2014-02-04T10:54:27Z'')) \<rparr>
   \<and> handle_list_items example_env (example_token_request ''ListIdentifiers'' ''i3'')
     = Inr \<lparr> records = drop 2 example_records, token = Some [] \<rparr>
   \<and> handle_list_items example_env (example_token_request ''ListIdentifiers'' ''i1'')
     = Inr \<lparr> records = take 2 example_records,
             token = Some (example_json_dumps
                       (example_token ''ListIdentifiers'' ''i3'' ''2014-02-04T11:00:00Z'')) \<rparr>"
proof (intro conjI)
  let ?tk = "None :: (string \<times> string option) list option"
  let ?ps = "effective_params ?tk example_first_request"
  have decoded: "get_resumption_token example_env example_first_request = Inr ?tk"
    by code_simp
  have checked: "check_params example_env ?ps
      (required_names (?tk \<noteq> None)) (allowed_names (?tk \<noteq> None)) = Inr ()"
    by code_simp
  have format: "get_metadata_prefix example_env ?ps (get_ignore_deleted example_env)
      = Inr (Some ''oai_dc'')"
    by code_simp
  have dates: "parse_from_and_until example_env (get_param ?ps ''from'')
      (get_param ?ps ''until'') = Inr (None, None)"
    by code_simp
  have sets: "get_param ?ps ''set'' = None \<or> Set_list example_env \<noteq> []"
    by code_simp
  have fetch: "example_records = Record_list example_env (list_query ?ps (Some ''oai_dc'')
      None None (get_ignore_deleted example_env) (item_list_limit example_env))"
    by code_simp
  have full: "example_records \<noteq> []
      \<and> int (length example_records) = item_list_limit example_env + 1"
    by code_simp
  have verb: "getitem ?ps ''verb'' = Inr (Some ''ListIdentifiers'')"
    by code_simp
  have pfx: "getitem ?ps ''metadataPrefix'' = Inr (Some ''oai_dc'')"
    by code_simp
  from list_items_lookahead [OF decoded checked format dates sets fetch,
      THEN conjunct2, THEN conjunct1, THEN mp, OF full]
  obtain v m where v: "getitem ?ps ''verb'' = Inr v"
    and m: "getitem ?ps ''metadataPrefix'' = Inr m"
    and answer: "handle_list_items example_env example_first_request =
       Inr \<lparr> records = take (nat (item_list_limit example_env)) example_records,
             token = Some (json_dumps example_env (JObj
               [(''verb'', json_of v),
                (''metadataPrefix'', json_of m),
                (''offset'',
                 JStr (record_identifier (example_records ! nat (item_list_limit example_env)))),
                (''date'', JStr (format_datestamp example_env (req_time example_first_request))),
                (''from'', json_of (get_param ?ps ''from'')),
                (''until'', json_of (get_param ?ps ''until'')),
                (''set'', json_of (get_param ?ps ''set''))])) \<rparr>"
    by blast
  from v verb have veq: "v = Some ''ListIdentifiers''" by simp
  from m pfx have meq: "m = Some ''oai_dc''" by simp
  have "Inr \<lparr> records = take (nat (item_list_limit example_env)) example_records,
             token = Some (json_dumps example_env (JObj
               [(''verb'', json_of (Some ''ListIdentifiers'')),
                (''metadataPrefix'', json_of (Some ''oai_dc'')),
                (''offset'',
                 JStr (record_identifier (example_records ! nat (item_list_limit example_env)))),
                (''date'', JStr (format_datestamp example_env (req_time example_first_request))),
                (''from'', json_of (get_param ?ps ''from'')),
                (''until'', json_of (get_param ?ps ''until'')),
                (''set'', json_of (get_param ?ps ''set''))])) \<rparr>
      = (Inr \<lparr> records = take 2 example_records,
             token = Some (example_json_dumps
                       (example_token ''ListIdentifiers'' ''i3'' ''2014-02-04T10:54:27Z'')) \<rparr>
         :: error + list_result)"
    by code_simp
  with answer show "handle_list_items example_env example_first_request
     = Inr \<lparr> records = take 2 example_records,
             token = Some (example_json_dumps
                       (example_token ''ListIdentifiers'' ''i3'' ''2014-02-04T10:54:27Z'')) \<rparr>"
    unfolding veq meq by (rule trans)
next
  let ?req = "example_token_request ''ListIdentifiers'' ''i3''"
  let ?tk = "Some (map (\<lambda>kv. (fst kv, str_or_none (snd kv)))
               (example_fields ''ListIdentifiers'' ''i3'' ''2014-02-04T10:54:27Z''))"
  let ?ps = "effective_params ?tk ?req"
  have decoded: "get_resumption_token example_env ?req = Inr ?tk"
    by code_simp
  have checked: "check_params example_env ?ps
      (required_names (?tk \<noteq> None)) (allowed_names (?tk \<noteq> None)) = Inr ()"
    by code_simp
  have format: "get_metadata_prefix example_env ?ps (get_ignore_deleted example_env)
      = Inr (Some ''oai_dc'')"
    by code_simp
  have dates: "parse_from_and_until example_env (get_param ?ps ''from'')
      (get_param ?ps ''until'') = Inr (None, None)"
    by code_simp
  have sets: "get_param ?ps ''set'' = None \<or> Set_list example_env \<noteq> []"
    by code_simp
  have fetch: "drop 2 example_records = Record_list example_env (list_query ?ps
      (Some ''oai_dc'') None None (get_ignore_deleted example_env)
      (item_list_limit example_env))"
    by code_simp
  have rest: "drop 2 example_records \<noteq> []
      \<and> int (length (drop 2 example_records)) \<noteq> item_list_limit example_env + 1"
    by code_simp
  have supplied: "contains_key (MultiDict (req_params ?req)) ''resumptionToken''"
    by code_simp
  from list_items_lookahead [OF decoded checked format dates sets fetch,
      THEN conjunct2, THEN conjunct2, THEN conjunct1, THEN mp, OF rest]
  show "handle_list_items example_env ?req
     = Inr \<lparr> records = drop 2 example_records, token = Some [] \<rparr>"
    by (simp only: supplied if_True)
next
  let ?req = "example_token_request ''ListIdentifiers'' ''i1''"
  let ?tk = "Some (map (\<lambda>kv. (fst kv, str_or_none (snd kv)))
               (example_fields ''ListIdentifiers'' ''i1'' ''2014-02-04T10:54:27Z''))"
  let ?ps = "effective_params ?tk ?req"
  have decoded: "get_resumption_token example_env ?req = Inr ?tk"
    by code_simp
  have checked: "check_params example_env ?ps
      (required_names (?tk \<noteq> None)) (allowed_names (?tk \<noteq> None)) = Inr ()"
    by code_simp
  have format: "get_metadata_prefix example_env ?ps (get_ignore_deleted example_env)
      = Inr (Some ''oai_dc'')"
    by code_simp
  have dates: "parse_from_and_until example_env (get_param ?ps ''from'')
      (get_param ?ps ''until'') = Inr (None, None)"
    by code_simp
  have sets: "get_param ?ps ''set'' = None \<or> Set_list example_env \<noteq> []"
    by code_simp
  have fetch: "example_records = Record_list example_env (list_query ?ps (Some ''oai_dc'')
      None None (get_ignore_deleted example_env) (item_list_limit example_env))"
    by code_simp
  have full: "example_records \<noteq> []
      \<and> int (length example_records) = item_list_limit example_env + 1"
    by code_simp
  have verb: "getitem ?ps ''verb'' = Inr (Some ''ListIdentifiers'')"
    by code_simp
  have pfx: "getitem ?ps ''metadataPrefix'' = Inr (Some ''oai_dc'')"
    by code_simp
  from list_items_lookahead [OF decoded checked format dates sets fetch,
      THEN conjunct2, THEN conjunct1, THEN mp, OF full]
  obtain v m where v: "getitem ?ps ''verb'' = Inr v"
    and m: "getitem ?ps ''metadataPrefix'' = Inr m"
    and answer: "handle_list_items example_env ?req =
       Inr \<lparr> records = take (nat (item_list_limit example_env)) example_records,
             token = Some (json_dumps example_env (JObj
               [(''verb'', json_of v),
                (''metadataPrefix'', json_of m),
                (''offset'',
                 JStr (record_identifier (example_records ! nat (item_list_limit example_env)))),
                (''date'', JStr (format_datestamp example_env (req_time ?req))),
                (''from'', json_of (get_param ?ps ''from'')),
                (''until'', json_of (get_param ?ps ''until'')),
                (''set'', json_of (get_param ?ps ''set''))])) \<rparr>"
    by blast
  from v verb have veq: "v = Some ''ListIdentifiers''" by simp
  from m pfx have meq: "m = Some ''oai_dc''" by simp
  have "Inr \<lparr> records = take (nat (item_list_limit example_env)) example_records,
             token = Some (json_dumps example_env (JObj
               [(''verb'', json_of (Some ''ListIdentifiers'')),
                (''metadataPrefix'', json_of (Some ''oai_dc'')),
                (''offset'',
                 JStr (record_identifier (example_records ! nat (item_list_limit example_env)))),
                (''date'', JStr (format_datestamp example_env (req_time ?req))),
                (''from'', json_of (get_param ?ps ''from'')),
                (''until'', json_of (get_param ?ps ''until'')),
                (''set'', json_of (get_param ?ps ''set''))])) \<rparr>
      = (Inr \<lparr> records = take 2 example_records,
             token = Some (example_json_dumps
                       (example_token ''ListIdentifiers'' ''i3'' ''2014-02-04T11:00:00Z'')) \<rparr>
         :: error + list_result)"
    by code_simp
  with answer show "handle_list_items example_env ?req
     = Inr \<lparr> records = take 2 example_records,
             token = Some (example_json_dumps
                       (example_token ''ListIdentifiers'' ''i3'' ''2014-02-04T11:00:00Z'')) \<rparr>"
    unfolding veq meq by (rule trans)
qed

theorem list_items_anchor_counterexample:
  "handle_list_items example_env example_first_request
     = Inr \<lparr> records = take 2 example_records,
             token = Some (example_json_dumps
                       (example_token ''ListIdentifiers'' ''i3'' ''2014-02-04T10:54:27Z'')) \<rparr>
   \<and> map record_identifier (take 2 example_records) = [''i1'', ''i2'']
   \<and> map record_identifier example_records = [''i1'', ''i2'', ''i3'']
   \<and> example_json_dumps (example_token ''ListIdentifiers'' ''i3'' ''2014-02-04T10:54:27Z'')
     \<noteq> example_json_dumps (example_token ''ListIdentifiers'' ''i2'' ''2014-02-04T10:54:27Z'')"
  by code_simp

end
